theory Spec2Isabelle
  imports Complex_Main "HOL-Library.AList"
begin

section \<open>Track metadata: the values of a parsed JSON document\<close>

text \<open>
  \<^verbatim>\<open>train_kmeans.py\<close> reads its catalog with \<^verbatim>\<open>json.loads\<close>, so a track is one of the
  Python values that call can build. A Python float is a real number or one of the three
  special values (\<^verbatim>\<open>json.loads\<close> accepts \<^verbatim>\<open>NaN\<close> and \<^verbatim>\<open>Infinity\<close>); rounding to 53 bits
  is not modelled. A dictionary keeps its insertion order, so it is an association list.
\<close>

datatype pyfloat = Fin real | PosInf | NegInf | NaN

datatype json =
    JNull
  | JBool bool
  | JInt int
  | JFloat pyfloat
  | JStr string
  | JList "json list"
  | JDict "(string \<times> json) list"

datatype error = AttributeError | ValueError | LibraryError | NanResult | Overflow

type_synonym featmap = "(string \<times> pyfloat) list"

text \<open>
  Two builtins of Python are used on values whose text form matters: \<^verbatim>\<open>float(s)\<close> on a
  string, and the formatting of a value inside an f-string. Neither is code of this
  repository; both are parameters of the model. \<open>float_of_str s = None\<close> stands for the
  \<^verbatim>\<open>ValueError\<close> of \<^verbatim>\<open>float\<close> on a string it cannot parse.
\<close>

record builtins =
  float_of_str :: "string \<Rightarrow> pyfloat option"
  str_of :: "json \<Rightarrow> string"

text \<open>\<^verbatim>\<open>d.get(k)\<close>: the value stored under \<open>k\<close>, \<^verbatim>\<open>None\<close> when the key is missing.\<close>

definition dict_get :: "(string \<times> json) list \<Rightarrow> string \<Rightarrow> json" where
  "dict_get d k = (case map_of d k of None \<Rightarrow> JNull | Some v \<Rightarrow> v)"

text \<open>Python's truth value of an object, as \<^verbatim>\<open>or\<close> tests it.\<close>

fun truthy :: "json \<Rightarrow> bool" where
  "truthy JNull = False"
| "truthy (JBool b) = b"
| "truthy (JInt i) = (i \<noteq> 0)"
| "truthy (JFloat f) = (f \<noteq> Fin 0)"
| "truthy (JStr s) = (s \<noteq> [])"
| "truthy (JList xs) = (xs \<noteq> [])"
| "truthy (JDict d) = (d \<noteq> [])"

definition py_or :: "json \<Rightarrow> json \<Rightarrow> json" where
  "py_or a b = (if truthy a then a else b)"

text \<open>An interpolated field of an f-string: a string is inserted as it is.\<close>

definition fstring :: "builtins \<Rightarrow> json \<Rightarrow> string" where
  "fstring py v = (case v of JStr s \<Rightarrow> s | _ \<Rightarrow> str_of py v)"

text \<open>
  \<^verbatim>\<open>safe_num\<close> (lines 13-19). \<^verbatim>\<open>float\<close> raises \<^verbatim>\<open>TypeError\<close> on a list or a dictionary,
  \<^verbatim>\<open>ValueError\<close> on a string that is no number and \<^verbatim>\<open>OverflowError\<close> on an integer that
  rounds beyond the largest double; the \<^verbatim>\<open>except\<close> clause turns each of them into \<^verbatim>\<open>None\<close>.
\<close>

definition float_int_limit :: int where
  "float_int_limit = 2 ^ 1024 - 2 ^ 970"

fun safe_num :: "builtins \<Rightarrow> json \<Rightarrow> pyfloat option" where
  "safe_num py JNull = None"
| "safe_num py (JBool b) = Some (Fin (if b then 1 else 0))"
| "safe_num py (JInt i) = (if \<bar>i\<bar> < float_int_limit then Some (Fin (of_int i)) else None)"
| "safe_num py (JFloat f) = Some f"
| "safe_num py (JStr s) = float_of_str py s"
| "safe_num py (JList xs) = None"
| "safe_num py (JDict d) = None"

section \<open>The metadata feature builders\<close>

text \<open>
  \<^verbatim>\<open>extract_ab_features\<close> (lines 22-60). The inner loop over \<^verbatim>\<open>probs.items()\<close> is
  \<open>prob_step\<close>, the body of the loop over \<^verbatim>\<open>high.items()\<close> is \<open>clf_step\<close>; \<open>out\<close> is
  the dictionary both write to. \<^verbatim>\<open>brainz.get\<close> on a value that is no dictionary raises
  \<^verbatim>\<open>AttributeError\<close>, and so does \<^verbatim>\<open>track.get\<close>.
\<close>

definition ab_flag :: string where
  "ab_flag = ''ab__has_acousticbrainz''"

definition prob_step :: "builtins \<Rightarrow> string \<Rightarrow> featmap \<Rightarrow> string \<times> json \<Rightarrow> featmap" where
  "prob_step py clf_name out item =
     (case safe_num py (snd item) of
        None \<Rightarrow> out
      | Some p \<Rightarrow> AList.update (''ab__'' @ clf_name @ ''__'' @ fst item) p out)"

definition clf_step :: "builtins \<Rightarrow> featmap \<Rightarrow> string \<times> json \<Rightarrow> featmap" where
  "clf_step py out item =
     (case snd item of
        JDict clf_obj \<Rightarrow>
          (case py_or (dict_get clf_obj ''all'') (dict_get clf_obj ''probabilities'') of
             JDict probs \<Rightarrow> foldl (prob_step py (fst item)) out probs
           | _ \<Rightarrow>
              (let val = dict_get clf_obj ''value'';
                   p = safe_num py (dict_get clf_obj ''probability'')
               in case p of
                    None \<Rightarrow> out
                  | Some q \<Rightarrow>
                      if val \<noteq> JNull
                      then AList.update (''ab__'' @ fst item @ ''__'' @ fstring py val) q out
                      else out))
      | _ \<Rightarrow> out)"

definition extract_ab_features :: "builtins \<Rightarrow> json \<Rightarrow> error + featmap" where
  "extract_ab_features py track =
     (case track of
        JDict t \<Rightarrow>
          (case py_or (dict_get t ''brainz'') (JDict []) of
             JDict brainz \<Rightarrow>
               (case dict_get brainz ''acousticHighLevel'' of
                  JDict ab \<Rightarrow>
                    (let high = (case dict_get ab ''highlevel'' of JDict h \<Rightarrow> h | _ \<Rightarrow> ab)
                     in Inr (AList.update ab_flag (Fin 1) (foldl (clf_step py) [] high)))
                | _ \<Rightarrow> Inr [])
           | _ \<Rightarrow> Inl AttributeError)
      | _ \<Rightarrow> Inl AttributeError)"

text \<open>\<^verbatim>\<open>extract_spotify_features\<close> (lines 63-72); \<open>sp_step\<close> is the body of its loop.\<close>

definition spotify_keys :: "string list" where
  "spotify_keys = [''energy'', ''valence'', ''danceability'', ''tempo'', ''popularity'', ''year'']"

definition sp_step :: "builtins \<Rightarrow> (string \<times> json) list \<Rightarrow> featmap \<Rightarrow> string \<Rightarrow> featmap" where
  "sp_step py t out k =
     (let v = safe_num py (dict_get t k)
      in AList.update (''sp__has_'' @ k) (case v of None \<Rightarrow> Fin 0 | Some x \<Rightarrow> Fin 1)
           (AList.update (''sp__'' @ k) (case v of None \<Rightarrow> Fin 0 | Some x \<Rightarrow> x) out))"

definition extract_spotify_features :: "builtins \<Rightarrow> json \<Rightarrow> error + featmap" where
  "extract_spotify_features py track =
     (case track of
        JDict t \<Rightarrow> Inr (foldl (sp_step py t) [] spotify_keys)
      | _ \<Rightarrow> Inl AttributeError)"

section \<open>Featurising a track and the training run\<close>

text \<open>
  An exception leaves the function that raised it and every caller up to \<^verbatim>\<open>main\<close>: a
  computation is a value of \<open>error + 'a\<close>, and \<open>bind_err\<close> passes the first error on.
  \<open>collect\<close> is a list comprehension or a loop whose body may raise: the first element that
  raises ends it.
\<close>

definition bind_err :: "error + 'a \<Rightarrow> ('a \<Rightarrow> error + 'b) \<Rightarrow> error + 'b" where
  "bind_err m f = (case m of Inl e \<Rightarrow> Inl e | Inr v \<Rightarrow> f v)"

fun collect :: "(error + 'a) list \<Rightarrow> error + 'a list" where
  "collect [] = Inr []"
| "collect (x # xs) = bind_err x (\<lambda>v. bind_err (collect xs) (\<lambda>vs. Inr (v # vs)))"

text \<open>\<^verbatim>\<open>f.update(g)\<close> on dictionaries, and \<^verbatim>\<open>featurize_track\<close> (lines 75-79).\<close>

definition dict_update :: "featmap \<Rightarrow> featmap \<Rightarrow> featmap" where
  "dict_update f g = foldl (\<lambda>acc kv. AList.update (fst kv) (snd kv) acc) f g"

definition featurize_track :: "builtins \<Rightarrow> json \<Rightarrow> error + featmap" where
  "featurize_track py track =
     bind_err (extract_spotify_features py track) (\<lambda>sp.
     bind_err (extract_ab_features py track) (\<lambda>ab.
       Inr (dict_update (dict_update [] sp) ab)))"

text \<open>
  The scikit-learn calls of \<^verbatim>\<open>main\<close> and \<^verbatim>\<open>random.sample\<close> are library code, parameters
  of the model. \<open>fit_predict\<close> stands for lines 102-111 (vectoriser, scaler and
  \<^verbatim>\<open>MiniBatchKMeans.fit_predict\<close>): from the feature dictionaries and \<open>k\<close> to one label per
  row, or an exception. \<open>silhouette_score\<close> receives the rows, the labels and the sampled
  indices. The command line is the record \<open>args\<close>.
\<close>

record sklearn =
  fit_predict :: "featmap list \<Rightarrow> int \<Rightarrow> error + int list"
  silhouette_score :: "featmap list \<Rightarrow> int list \<Rightarrow> nat list \<Rightarrow> error + real"
  random_sample :: "nat \<Rightarrow> nat \<Rightarrow> nat list"

record args =
  arg_k :: int
  arg_silhouette_sample :: int

record assignment =
  spotifyId :: json
  name :: json
  artists :: json
  cluster :: int

record outputs =
  cluster_assignments :: "assignment list"
  model_silhouette :: "real option"

text \<open>Lines 113-122: the sampled silhouette, \<open>None\<close> for Python's \<^verbatim>\<open>None\<close>.\<close>

definition silhouette_estimate :: "sklearn \<Rightarrow> args \<Rightarrow> featmap list \<Rightarrow> int list \<Rightarrow> real option" where
  "silhouette_estimate sk a Xs labels =
     (let n = length Xs;
          sample_n = min (arg_silhouette_sample a) (int n)
      in if sample_n \<ge> 50 \<and> arg_k a \<ge> 2
         then (case silhouette_score sk Xs labels (random_sample sk n (nat sample_n)) of
                 Inl e \<Rightarrow> None
               | Inr s \<Rightarrow> Some s)
         else None)"

text \<open>Lines 124-132: one record per pair of \<^verbatim>\<open>zip(tracks, labels)\<close>.\<close>

definition assignment_of :: "json \<times> int \<Rightarrow> error + assignment" where
  "assignment_of p =
     (case fst p of
        JDict t \<Rightarrow> Inr \<lparr>spotifyId = dict_get t ''id'', name = dict_get t ''name'',
                        artists = dict_get t ''artists'', cluster = snd p\<rparr>
      | _ \<Rightarrow> Inl AttributeError)"

text \<open>
  \<^verbatim>\<open>main\<close> (lines 94-144) from the parsed input document on. Of the exported model only the
  silhouette is kept: the feature names, scales and centroids are what scikit-learn returns.
\<close>

definition main :: "builtins \<Rightarrow> sklearn \<Rightarrow> args \<Rightarrow> json \<Rightarrow> error + outputs" where
  "main py sk a doc =
     (case doc of
        JList tracks \<Rightarrow>
          bind_err (collect (map (featurize_track py) tracks)) (\<lambda>feat_dicts.
          bind_err (fit_predict sk feat_dicts (arg_k a)) (\<lambda>labels.
            let sil = silhouette_estimate sk a feat_dicts labels
            in bind_err (collect (map assignment_of (zip tracks labels))) (\<lambda>assignments.
                 Inr \<lparr>cluster_assignments = assignments, model_silhouette = sil\<rparr>)))
      | _ \<Rightarrow> Inl ValueError)"

section \<open>Audio descriptors\<close>

text \<open>
  \<^verbatim>\<open>SpotifyFeaturesDSP.py\<close> computes on numpy arrays of floats. For the key and the time
  signature, whose claims are about the branches taken, samples are real numbers, an array
  is a list, and rounding is not modelled. Where numpy yields \<^verbatim>\<open>nan\<close> (the mean of an
  empty array, a division by zero) no real number is the result: the model stops with
  \<open>NanResult\<close>. Where numpy raises, the model returns \<open>ValueError\<close>. The crest factor
  and the harmonic ratio, whose claims rounding decides, are computed in binary64 in the
  last section of the definitions.
\<close>

definition eps12 :: real where
  "eps12 = 1 / 10 ^ 12"

definition np_mean :: "real list \<Rightarrow> error + real" where
  "np_mean xs = (if xs = [] then Inl NanResult else Inr (sum_list xs / real (length xs)))"

definition np_std :: "real list \<Rightarrow> error + real" where
  "np_std xs =
     bind_err (np_mean xs) (\<lambda>m.
     bind_err (np_mean (map (\<lambda>x. \<bar>x - m\<bar> ^ 2) xs)) (\<lambda>v. Inr (sqrt v)))"

definition np_max :: "real list \<Rightarrow> error + real" where
  "np_max xs = (case xs of [] \<Rightarrow> Inl ValueError | x # r \<Rightarrow> Inr (fold max r x))"

fun index_of :: "real \<Rightarrow> real list \<Rightarrow> nat" where
  "index_of v [] = 0"
| "index_of v (x # xs) = (if x = v then 0 else Suc (index_of v xs))"

text \<open>\<^verbatim>\<open>np.argmax\<close>: the first index that holds the maximum.\<close>

definition np_argmax :: "real list \<Rightarrow> error + nat" where
  "np_argmax xs = bind_err (np_max xs) (\<lambda>m. Inr (index_of m xs))"

definition np_dot :: "real list \<Rightarrow> real list \<Rightarrow> error + real" where
  "np_dot xs ys =
     (if length xs = length ys then Inr (sum_list (map2 (*) xs ys)) else Inl ValueError)"

text \<open>\<^verbatim>\<open>np.roll(xs, k)\<close>: the last \<open>k\<close> elements move to the front.\<close>

definition np_roll :: "real list \<Rightarrow> nat \<Rightarrow> real list" where
  "np_roll xs k = (let n = length xs in drop (n - k mod n) xs @ take (n - k mod n) xs)"

text \<open>
  \<^verbatim>\<open>np.correlate(a, v, mode="full")\<close> for two arrays of one length \<open>n\<close>: entry \<open>j\<close> is the
  sum of \<open>a[i + s] * v[i]\<close> at the shift \<open>s = j - (n - 1)\<close>, over the indices where both
  exist. numpy raises on empty arguments.
\<close>

definition corr_at :: "real list \<Rightarrow> real list \<Rightarrow> int \<Rightarrow> real" where
  "corr_at a v s =
     (if s \<ge> 0 then sum_list (map2 (*) (drop (nat s) a) v)
      else sum_list (map2 (*) a (drop (nat (- s)) v)))"

definition np_correlate_full :: "real list \<Rightarrow> real list \<Rightarrow> error + real list" where
  "np_correlate_full a v =
     (if a = [] \<or> v = [] then Inl ValueError
      else Inr (map (\<lambda>j. corr_at a v (int j - (int (length v) - 1)))
                  [0 ..< length a + length v - 1]))"

text \<open>\<^verbatim>\<open>peak\<close> (lines 75-76): the largest magnitude, which no rounding touches.\<close>

definition peak :: "real list \<Rightarrow> error + real" where
  "peak y = np_max (map abs y)"

text \<open>
  \<^verbatim>\<open>key_and_mode\<close> (lines 111-145). \<open>chroma\<close> is the result of
  \<^verbatim>\<open>librosa.feature.chroma_cqt\<close>, one row per pitch class.
\<close>

definition major_profile :: "real list" where
  "major_profile = [6.35, 2.23, 3.48, 2.33, 4.38, 4.09, 2.52, 5.19, 2.39, 3.66, 2.29, 2.88]"

definition minor_profile :: "real list" where
  "minor_profile = [6.33, 2.68, 3.52, 5.38, 2.60, 3.53, 2.54, 4.75, 3.98, 2.69, 3.34, 3.17]"

definition l1_normalise :: "real list \<Rightarrow> real list" where
  "l1_normalise t = map (\<lambda>x. x / sum_list t) t"

definition best_corr :: "real list \<Rightarrow> real list \<Rightarrow> error + (nat \<times> real)" where
  "best_corr chroma_mean template =
     bind_err (collect (map (\<lambda>k. np_dot chroma_mean (np_roll template k)) [0 ..< 12])) (\<lambda>corrs.
     bind_err (np_argmax corrs) (\<lambda>k_best.
     bind_err (np_max corrs) (\<lambda>c_best. Inr (k_best, c_best))))"

text \<open>Lines 118-120: the mean of each row, divided by the sum of the means plus 1e-12.\<close>

definition chroma_profile :: "real list list \<Rightarrow> error + real list" where
  "chroma_profile chroma =
     bind_err (collect (map np_mean chroma)) (\<lambda>row_means.
       if sum_list row_means + eps12 = 0 then Inl NanResult
       else Inr (map (\<lambda>x. x / (sum_list row_means + eps12)) row_means))"

definition key_and_mode :: "real list list \<Rightarrow> error + (nat \<times> nat \<times> real)" where
  "key_and_mode chroma =
     bind_err (chroma_profile chroma) (\<lambda>chroma_mean.
       let major = l1_normalise major_profile;
           minor = l1_normalise minor_profile
       in bind_err (best_corr chroma_mean major) (\<lambda>bM.
          bind_err (best_corr chroma_mean minor) (\<lambda>bm.
            if snd bM \<ge> snd bm
            then Inr (fst bM, 1, snd bM - snd bm)
            else Inr (fst bm, 0, snd bm - snd bM))))"

text \<open>
  \<^verbatim>\<open>time_signature_guess\<close> (lines 147-178). \<open>beats\<close> is the beat array of
  \<^verbatim>\<open>librosa.beat.beat_track\<close> (\<open>None\<close> for Python's \<^verbatim>\<open>None\<close>), \<open>sync\<close> is
  \<^verbatim>\<open>librosa.util.sync\<close> with the mean as aggregate, applied to the onset envelope. On an
  empty array of accents lines 159-160 compute \<^verbatim>\<open>nan\<close> with a warning, the test of line
  160 is false, and \<^verbatim>\<open>np.correlate\<close> raises at line 164: the exception is the outcome.
\<close>

definition time_signature_guess ::
    "(real list \<Rightarrow> nat list \<Rightarrow> real list) \<Rightarrow> real list \<Rightarrow> nat list option \<Rightarrow> error + (nat \<times> real)" where
  "time_signature_guess sync onset_env beats =
     (case beats of
        None \<Rightarrow> Inr (4, 0)
      | Some bs \<Rightarrow>
          if length bs < 8 then Inr (4, 0)
          else
            let synced = sync onset_env bs
            in if synced = [] then Inl ValueError
               else
               bind_err (np_mean synced) (\<lambda>m.
               let beat_env = map (\<lambda>x. x - m) synced
               in bind_err (np_std beat_env) (\<lambda>sd.
                  if sd < 1 / 10 ^ 6 then Inr (4, 0)
                  else
                    bind_err (np_correlate_full beat_env beat_env) (\<lambda>full.
                      let ac = drop (length full div 2) full
                      in if length ac \<le> 5 then Inr (4, 0)
                         else
                           let lag3 = (if length ac > 3 then ac ! 3 else 0);
                               lag4 = (if length ac > 4 then ac ! 4 else 0)
                           in if lag3 > lag4
                              then Inr (3, (lag3 - lag4) / (\<bar>lag3\<bar> + \<bar>lag4\<bar> + eps12))
                              else Inr (4, (lag4 - lag3) / (\<bar>lag3\<bar> + \<bar>lag4\<bar> + eps12))))))"

section \<open>Descriptors computed in binary64\<close>

text \<open>
  A double is a real number \<open>k * 2 ^ e\<close> with \<open>\<bar>k\<bar> < 2 ^ 53\<close> and \<open>e \<ge> -1074\<close>.
  \<open>fl x\<close> is the double nearest to \<open>x\<close>, a tie going to the even \<open>k\<close> (IEEE 754
  round-to-nearest-even, subnormal numbers included): \<open>ulp_exp x\<close> is the exponent of the
  last bit of a 53-bit number of the magnitude of \<open>x\<close>, and \<open>round_even\<close> rounds the
  scaled value to an integer. Every operation of numpy is the exact operation followed by
  \<open>fl\<close>. A result that rounds to \<open>2 ^ 1024\<close> or beyond is \<^verbatim>\<open>inf\<close> in numpy, no real
  number: \<open>f64\<close> stops with \<open>Overflow\<close> there.
\<close>

definition round_even :: "real \<Rightarrow> int" where
  "round_even t =
     (let f = \<lfloor>t\<rfloor>
      in if t - of_int f < 1 / 2 then f
         else if 1 / 2 < t - of_int f then f + 1
         else if even f then f else f + 1)"

definition ulp_exp :: "real \<Rightarrow> int" where
  "ulp_exp x = max (\<lfloor>log 2 \<bar>x\<bar>\<rfloor> - 52) (- 1074)"

definition fl :: "real \<Rightarrow> real" where
  "fl x = (if x = 0 then 0
           else of_int (round_even (x / 2 powr of_int (ulp_exp x))) * 2 powr of_int (ulp_exp x))"

definition f64 :: "real \<Rightarrow> error + real" where
  "f64 x = (if \<bar>fl x\<bar> < 2 ^ 1024 then Inr (fl x) else Inl Overflow)"

text \<open>The literal \<^verbatim>\<open>1e-12\<close> of the source is the double nearest to that number.\<close>

definition eps_d :: real where
  "eps_d = fl (1 / 10 ^ 12)"

text \<open>
  \<^verbatim>\<open>np.mean\<close> adds the elements and divides by their number. The model adds from left
  to right, starting at 0, as numpy does for fewer than 8 elements; for longer arrays
  numpy adds in blocks. The mean of an empty array is \<^verbatim>\<open>nan\<close>.
\<close>

definition f64_sum :: "real list \<Rightarrow> error + real" where
  "f64_sum xs = foldl (\<lambda>acc x. bind_err acc (\<lambda>s. f64 (s + x))) (Inr 0) xs"

definition f64_mean :: "real list \<Rightarrow> error + real" where
  "f64_mean xs =
     (if xs = [] then Inl NanResult
      else bind_err (f64_sum xs) (\<lambda>s. f64 (s / real (length xs))))"

text \<open>\<^verbatim>\<open>np.mean(y ** 2)\<close>, of lines 79, 197 and 198.\<close>

definition mean_square :: "real list \<Rightarrow> error + real" where
  "mean_square y = bind_err (collect (map (\<lambda>x. f64 (x * x)) y)) f64_mean"


definition guarded_peak :: "real list \<Rightarrow> error + real" where
  "guarded_peak y = bind_err (peak y) (\<lambda>pk. Inr (max pk eps_d))"


text \<open>
  \<^verbatim>\<open>harmonic_percussive_ratio\<close> (lines 195-199). \<open>hpss\<close> is \<^verbatim>\<open>librosa.effects.hpss\<close>,
  which returns the harmonic and the percussive component of the signal.
\<close>

definition harmonic_percussive_ratio ::
    "(real list \<Rightarrow> real list \<times> real list) \<Rightarrow> real list \<Rightarrow> error + real" where
  "harmonic_percussive_ratio hpss y =
     (let hp = hpss y
      in bind_err (mean_square (fst hp)) (\<lambda>eh.
         bind_err (mean_square (snd hp)) (\<lambda>ep.
         bind_err (f64 (eh + ep)) (\<lambda>d1.
         bind_err (f64 (d1 + eps_d)) (\<lambda>d.
           f64 (eh / d))))))"

section \<open>Properties of the metadata feature builders\<close>

lemma sp_lookup:
  assumes "k \<in> set spotify_keys"
  shows "map_of (foldl (sp_step py t) [] spotify_keys) (''sp__'' @ k) =
           Some (case safe_num py (dict_get t k) of None \<Rightarrow> Fin 0 | Some x \<Rightarrow> x)
       \<and> map_of (foldl (sp_step py t) [] spotify_keys) (''sp__has_'' @ k) =
           Some (case safe_num py (dict_get t k) of None \<Rightarrow> Fin 0 | Some x \<Rightarrow> Fin 1)"
  using assms
  by (auto simp: spotify_keys_def sp_step_def Let_def update_conv')

text \<open>
  C1, as the code has it. For a track whose \<^verbatim>\<open>brainz\<close> entry is missing, falsy or a
  dictionary, \<^verbatim>\<open>extract_ab_features\<close> returns, and the flag \<^verbatim>\<open>ab__has_acousticbrainz\<close> is
  1.0 exactly when \<^verbatim>\<open>brainz["acousticHighLevel"]\<close> is a dictionary, whether or not a
  classifier feature was written. When it is not a dictionary the result is the empty
  dictionary: the flag is absent, it is never 0.0, and no feature is emitted without it.
\<close>

theorem ab_flag_marks_block:
  assumes "py_or (dict_get t ''brainz'') (JDict []) = JDict brainz"
  shows "\<exists>out. extract_ab_features py (JDict t) = Inr out
           \<and> (case dict_get brainz ''acousticHighLevel'' of
                 JDict ab \<Rightarrow> map_of out ab_flag = Some (Fin 1)
               | _ \<Rightarrow> out = [])"
  using assms
  by (simp add: extract_ab_features_def Let_def update_conv' split: json.splits)

theorem ab_flag_marks_block_witness:
  "py_or (dict_get [(''id'', JStr ''a''),
                    (''brainz'', JDict [(''acousticHighLevel'',
                       JDict [(''highlevel'',
                         JDict [(''mood_happy'',
                           JDict [(''all'', JDict [(''happy'', JFloat (Fin 0.25)),
                                                   (''not_happy'', JFloat (Fin 0.75))])])])])])]
            ''brainz'') (JDict [])
     = JDict [(''acousticHighLevel'',
               JDict [(''highlevel'',
                 JDict [(''mood_happy'',
                   JDict [(''all'', JDict [(''happy'', JFloat (Fin 0.25)),
                                           (''not_happy'', JFloat (Fin 0.75))])])])])]
   \<and> (\<exists>out. extract_ab_features \<lparr>float_of_str = (\<lambda>s. None), str_of = (\<lambda>v. [])\<rparr>
          (JDict [(''id'', JStr ''a''),
                  (''brainz'', JDict [(''acousticHighLevel'',
                     JDict [(''highlevel'',
                       JDict [(''mood_happy'',
                         JDict [(''all'', JDict [(''happy'', JFloat (Fin 0.25)),
                                                 (''not_happy'', JFloat (Fin 0.75))])])])])])]) = Inr out
        \<and> map_of out ab_flag = Some (Fin 1))"
proof -
  let ?brainz = "[(''acousticHighLevel'',
               JDict [(''highlevel'',
                 JDict [(''mood_happy'',
                   JDict [(''all'', JDict [(''happy'', JFloat (Fin 0.25)),
                                           (''not_happy'', JFloat (Fin 0.75))])])])])]"
  let ?t = "[(''id'', JStr ''a''), (''brainz'', JDict ?brainz)]"
  have h: "py_or (dict_get ?t ''brainz'') (JDict []) = JDict ?brainz"
    by (simp add: py_or_def dict_get_def)
  from ab_flag_marks_block [OF h, of "\<lparr>float_of_str = (\<lambda>s. None), str_of = (\<lambda>v. [])\<rparr>"]
  have "\<exists>out. extract_ab_features \<lparr>float_of_str = (\<lambda>s. None), str_of = (\<lambda>v. [])\<rparr> (JDict ?t) = Inr out
        \<and> map_of out ab_flag = Some (Fin 1)"
    by (simp add: dict_get_def)
  with h show ?thesis by blast
qed

text \<open>
  C1 as stated fails: on a track whose classifier block is a dictionary with no classifier
  in it, the only entry of the result is the flag, with value 1.0.
\<close>

theorem ab_flag_without_features:
  "extract_ab_features \<lparr>float_of_str = (\<lambda>s. None), str_of = (\<lambda>v. [])\<rparr>
     (JDict [(''brainz'', JDict [(''acousticHighLevel'', JDict [(''highlevel'', JDict [])])])])
   = Inr [(''ab__has_acousticbrainz'', Fin 1)]"
  by (simp add: extract_ab_features_def py_or_def dict_get_def ab_flag_def)

text \<open>
  C2: a track whose \<^verbatim>\<open>brainz\<close> entry is a non-empty list makes \<^verbatim>\<open>extract_ab_features\<close>
  raise \<^verbatim>\<open>AttributeError\<close> at \<^verbatim>\<open>brainz.get\<close> (line 30), where the claim promises an
  empty result.
\<close>

theorem ab_raises_on_non_dict_brainz:
  "extract_ab_features py (JDict [(''id'', JStr ''t1''), (''brainz'', JList [JDict []])])
   = Inl AttributeError"
  by (simp add: extract_ab_features_def py_or_def dict_get_def)

text \<open>
  C3: for each of the six named attributes \<^verbatim>\<open>extract_spotify_features\<close> writes both
  \<^verbatim>\<open>sp__<name>\<close> and \<^verbatim>\<open>sp__has_<name>\<close>. When the attribute is missing or \<^verbatim>\<open>safe_num\<close>
  finds no number in it, both are 0.0; a flag of 0.0 never comes with a value other than
  0.0; and when \<^verbatim>\<open>safe_num\<close> finds the number \<open>x\<close>, the value is \<open>x\<close> and the flag is 1.0.
\<close>

theorem spotify_pair_coupled:
  assumes "k \<in> set spotify_keys"
  shows "\<exists>out v f. extract_spotify_features py (JDict t) = Inr out
           \<and> map_of out (''sp__'' @ k) = Some v
           \<and> map_of out (''sp__has_'' @ k) = Some f
           \<and> (safe_num py (dict_get t k) = None \<longrightarrow> v = Fin 0 \<and> f = Fin 0)
           \<and> (map_of t k = None \<longrightarrow> safe_num py (dict_get t k) = None)
           \<and> (f = Fin 0 \<longrightarrow> v = Fin 0)
           \<and> (\<forall>x. safe_num py (dict_get t k) = Some x \<longrightarrow> v = x \<and> f = Fin 1)"
proof -
  let ?out = "foldl (sp_step py t) [] spotify_keys"
  let ?n = "safe_num py (dict_get t k)"
  have run: "extract_spotify_features py (JDict t) = Inr ?out"
    by (simp add: extract_spotify_features_def)
  have look: "map_of ?out (''sp__'' @ k) = Some (case ?n of None \<Rightarrow> Fin 0 | Some x \<Rightarrow> x)"
    "map_of ?out (''sp__has_'' @ k) = Some (case ?n of None \<Rightarrow> Fin 0 | Some x \<Rightarrow> Fin 1)"
    using sp_lookup [OF assms, of py t] by simp_all
  have miss: "map_of t k = None \<longrightarrow> ?n = None"
    by (simp add: dict_get_def)
  show ?thesis
    using run look miss by (cases ?n) auto
qed

theorem spotify_pair_coupled_witness:
  "''year'' \<in> set spotify_keys
   \<and> (\<exists>out. extract_spotify_features \<lparr>float_of_str = (\<lambda>s. None), str_of = (\<lambda>v. [])\<rparr>
                (JDict [(''energy'', JFloat (Fin 0.5)), (''year'', JStr ''unknown'')]) = Inr out
           \<and> map_of out ''sp__year'' = Some (Fin 0)
           \<and> map_of out ''sp__has_year'' = Some (Fin 0))"
  using spotify_pair_coupled [of "''year''" "\<lparr>float_of_str = (\<lambda>s. None), str_of = (\<lambda>v. [])\<rparr>"
      "[(''energy'', JFloat (Fin 0.5)), (''year'', JStr ''unknown'')]"]
  by (auto simp: spotify_keys_def dict_get_def)

section \<open>Properties of the training run\<close>

lemma collect_Inr_length:
  "collect xs = Inr ys \<Longrightarrow> length ys = length xs"
proof (induction xs arbitrary: ys)
  case Nil
  then show ?case by simp
next
  case (Cons x xs)
  then show ?case
    by (auto simp: bind_err_def split: sum.splits)
qed

lemma collect_Inr_nth:
  "collect xs = Inr ys \<Longrightarrow> i < length xs \<Longrightarrow> xs ! i = Inr (ys ! i)"
proof (induction xs arbitrary: ys i)
  case Nil
  then show ?case by simp
next
  case (Cons x xs)
  then show ?case
    by (cases i) (auto simp: bind_err_def split: sum.splits)
qed

lemma collect_all_Inr:
  "\<forall>x \<in> set xs. \<exists>v. f x = Inr v \<Longrightarrow> \<exists>ys. collect (map f xs) = Inr ys"
  by (induction xs) (auto simp: bind_err_def)

lemma featurize_track_dict:
  "featurize_track py x = Inr fm \<Longrightarrow> \<exists>t. x = JDict t"
  by (cases x) (simp_all add: featurize_track_def extract_spotify_features_def bind_err_def)

text \<open>
  C8: when every track of the catalog is featurised and the clustering returns one label
  per track, \<^verbatim>\<open>main\<close> returns, the assignment list has one record per track, and record
  \<open>i\<close> holds the \<^verbatim>\<open>id\<close>, \<^verbatim>\<open>name\<close> and \<^verbatim>\<open>artists\<close> of track \<open>i\<close> with label \<open>i\<close>.
\<close>

theorem assignments_follow_input:
  assumes "collect (map (featurize_track py) tracks) = Inr fd"
    and "fit_predict sk fd (arg_k a) = Inr labels"
    and "length labels = length tracks"
  shows "\<exists>out. main py sk a (JList tracks) = Inr out
           \<and> length (cluster_assignments out) = length tracks
           \<and> (\<forall>i < length tracks. \<exists>t. tracks ! i = JDict t
                \<and> cluster_assignments out ! i =
                    \<lparr>spotifyId = dict_get t ''id'', name = dict_get t ''name'',
                     artists = dict_get t ''artists'', cluster = labels ! i\<rparr>)"
proof -
  have dicts: "\<exists>t. x = JDict t" if "x \<in> set tracks" for x
  proof -
    from that obtain i where i: "i < length tracks" "tracks ! i = x"
      by (auto simp: in_set_conv_nth)
    then have "featurize_track py x = Inr (fd ! i)"
      using collect_Inr_nth [OF assms(1), of i] by simp
    then show ?thesis by (rule featurize_track_dict)
  qed
  have "\<forall>p \<in> set (zip tracks labels). \<exists>v. assignment_of p = Inr v"
    by (auto simp: assignment_of_def dest!: set_zip_leftD dicts)
  then obtain asg where asg: "collect (map assignment_of (zip tracks labels)) = Inr asg"
    using collect_all_Inr by blast
  have len: "length asg = length tracks"
    using collect_Inr_length [OF asg] assms(3) by simp
  have run: "main py sk a (JList tracks) =
      Inr \<lparr>cluster_assignments = asg, model_silhouette = silhouette_estimate sk a fd labels\<rparr>"
    using assms(1,2) asg by (simp add: main_def bind_err_def Let_def)
  have each: "\<exists>t. tracks ! i = JDict t \<and> asg ! i =
        \<lparr>spotifyId = dict_get t ''id'', name = dict_get t ''name'',
         artists = dict_get t ''artists'', cluster = labels ! i\<rparr>"
    if i: "i < length tracks" for i
  proof -
    from i dicts obtain t where t: "tracks ! i = JDict t"
      by (metis nth_mem)
    have "assignment_of (zip tracks labels ! i) = Inr (asg ! i)"
      using collect_Inr_nth [OF asg, of i] i assms(3) by simp
    then show ?thesis
      using t i assms(3) by (auto simp: assignment_of_def)
  qed
  show ?thesis
    using run len each by simp
qed


theorem assignments_follow_input_witness:
  "\<exists>out. main \<lparr>float_of_str = (\<lambda>s. None), str_of = (\<lambda>v. [])\<rparr>
        \<lparr>fit_predict = (\<lambda>fd k. Inr [1, 0]),
         silhouette_score = (\<lambda>Xs labels idx. Inl LibraryError),
         random_sample = (\<lambda>n m. [0 ..< m])\<rparr>
        \<lparr>arg_k = 2, arg_silhouette_sample = 1500\<rparr>
        (JList [JDict [(''id'', JStr ''a''), (''name'', JStr ''n'')],
                JDict [(''id'', JStr ''b''), (''popularity'', JInt 7)]]) = Inr out
     \<and> length (cluster_assignments out) = 2
     \<and> cluster_assignments out ! 1 =
          \<lparr>spotifyId = JStr ''b'', name = JNull, artists = JNull, cluster = 0\<rparr>"
proof -
  let ?py = "\<lparr>float_of_str = (\<lambda>s. None), str_of = (\<lambda>v. [])\<rparr>"
  let ?sk = "\<lparr>fit_predict = (\<lambda>fd k. Inr [1, 0]),
         silhouette_score = (\<lambda>Xs labels idx. Inl LibraryError),
         random_sample = (\<lambda>n m. [0 ..< m])\<rparr>"
  let ?a = "\<lparr>arg_k = 2, arg_silhouette_sample = 1500\<rparr>"
  let ?tracks = "[JDict [(''id'', JStr ''a''), (''name'', JStr ''n'')],
                JDict [(''id'', JStr ''b''), (''popularity'', JInt 7)]]"
  have "case collect (map (featurize_track ?py) ?tracks) of Inl e \<Rightarrow> False | Inr fd \<Rightarrow> True"
    by code_simp
  then obtain fd where fd: "collect (map (featurize_track ?py) ?tracks) = Inr fd"
    by (auto split: sum.splits)
  have lab: "fit_predict ?sk fd (arg_k ?a) = Inr [1, 0]"
    by simp
  have len: "length [1, 0 :: int] = length ?tracks"
    by simp
  from assignments_follow_input [OF fd lab len] obtain out where
    run: "main ?py ?sk ?a (JList ?tracks) = Inr out"
    and n: "length (cluster_assignments out) = length ?tracks"
    and each: "\<forall>i < length ?tracks. \<exists>t. ?tracks ! i = JDict t
                \<and> cluster_assignments out ! i =
                    \<lparr>spotifyId = dict_get t ''id'', name = dict_get t ''name'',
                     artists = dict_get t ''artists'', cluster = [1, 0] ! i\<rparr>"
    by blast
  have "(1::nat) < length ?tracks"
    by simp
  with each have "\<exists>t. ?tracks ! 1 = JDict t
                \<and> cluster_assignments out ! 1 =
                    \<lparr>spotifyId = dict_get t ''id'', name = dict_get t ''name'',
                     artists = dict_get t ''artists'', cluster = [1, 0] ! 1\<rparr>"
    by blast
  then have "cluster_assignments out ! 1 =
      \<lparr>spotifyId = JStr ''b'', name = JNull, artists = JNull, cluster = 0\<rparr>"
    by (auto simp: dict_get_def)
  with run n show ?thesis by simp
qed

lemma main_run:
  assumes "collect (map (featurize_track py) tracks) = Inr fd"
    and "fit_predict sk fd (arg_k a) = Inr labels"
  shows "\<exists>asg. main py sk a (JList tracks) =
           Inr \<lparr>cluster_assignments = asg, model_silhouette = silhouette_estimate sk a fd labels\<rparr>"
proof -
  have dicts: "\<exists>t. x = JDict t" if "x \<in> set tracks" for x
  proof -
    from that obtain i where i: "i < length tracks" "tracks ! i = x"
      by (auto simp: in_set_conv_nth)
    then have "featurize_track py x = Inr (fd ! i)"
      using collect_Inr_nth [OF assms(1), of i] by simp
    then show ?thesis by (rule featurize_track_dict)
  qed
  have "\<exists>asg. collect (map assignment_of (zip tracks labels)) = Inr asg"
  proof (rule collect_all_Inr)
    show "\<forall>p \<in> set (zip tracks labels). \<exists>v. assignment_of p = Inr v"
      by (auto simp: assignment_of_def dest!: set_zip_leftD dicts)
  qed
  then obtain asg where "collect (map assignment_of (zip tracks labels)) = Inr asg" ..
  then show ?thesis
    using assms by (simp add: main_def bind_err_def Let_def)
qed

lemma silhouette_small:
  "length tracks < 50 \<or> arg_k a < 2 \<or> arg_silhouette_sample a < 50 \<Longrightarrow> length fd = length tracks
    \<Longrightarrow> silhouette_estimate sk a fd labels = None"
  by (auto simp: silhouette_estimate_def Let_def)

lemma silhouette_large:
  "50 \<le> length tracks \<Longrightarrow> 2 \<le> arg_k a \<Longrightarrow> 50 \<le> arg_silhouette_sample a \<Longrightarrow> length fd = length tracks
   \<Longrightarrow> silhouette_estimate sk a fd labels =
       (case silhouette_score sk fd labels
               (random_sample sk (length tracks)
                  (nat (min (arg_silhouette_sample a) (int (length tracks))))) of
          Inl e \<Rightarrow> None
        | Inr s \<Rightarrow> Some s)"
  by (simp add: silhouette_estimate_def Let_def)


lemma silhouette_value:
  assumes "silhouette_estimate sk a fd labels = Some s" and "length fd = length tracks"
  shows "silhouette_score sk fd labels
           (random_sample sk (length tracks)
              (nat (min (arg_silhouette_sample a) (int (length tracks))))) = Inr s"
  using assms
  by (simp add: silhouette_estimate_def Let_def split: if_splits sum.splits)

text \<open>
  C4, as the code has it. When every track is featurised and the clustering returns,
  \<^verbatim>\<open>main\<close> reaches the export, and the silhouette is \<^verbatim>\<open>None\<close> whenever the catalog has
  fewer than 50 tracks, \<open>k < 2\<close> or the sample cap \<^verbatim>\<open>--silhouette_sample\<close> is below 50.
  Otherwise it is what \<^verbatim>\<open>silhouette_score\<close> returned for the rows of this run, its labels
  and its sample of \<open>min cap n\<close> indices: that number, or \<^verbatim>\<open>None\<close> when the scorer raised.
  When the scorer keeps to its range on that call, the exported number lies in [-1, 1].
\<close>

theorem silhouette_of_the_run:
  assumes "collect (map (featurize_track py) tracks) = Inr fd"
    and "fit_predict sk fd (arg_k a) = Inr labels"
  shows "\<exists>out. main py sk a (JList tracks) = Inr out
         \<and> (length tracks < 50 \<or> arg_k a < 2 \<or> arg_silhouette_sample a < 50
              \<longrightarrow> model_silhouette out = None)
         \<and> (50 \<le> length tracks \<and> 2 \<le> arg_k a \<and> 50 \<le> arg_silhouette_sample a
              \<longrightarrow> model_silhouette out =
                    (case silhouette_score sk fd labels
                            (random_sample sk (length tracks)
                               (nat (min (arg_silhouette_sample a) (int (length tracks))))) of
                       Inl e \<Rightarrow> None
                     | Inr s \<Rightarrow> Some s))
         \<and> ((\<forall>s. silhouette_score sk fd labels
                       (random_sample sk (length tracks)
                          (nat (min (arg_silhouette_sample a) (int (length tracks))))) = Inr s
                   \<longrightarrow> - 1 \<le> s \<and> s \<le> 1)
              \<longrightarrow> (\<forall>s. model_silhouette out = Some s \<longrightarrow> - 1 \<le> s \<and> s \<le> 1))"
proof -
  let ?sil = "silhouette_estimate sk a fd labels"
  from main_run [OF assms] obtain asg where
    run: "main py sk a (JList tracks) = Inr \<lparr>cluster_assignments = asg, model_silhouette = ?sil\<rparr>" ..
  have len: "length fd = length tracks"
    using collect_Inr_length [OF assms(1)] by simp
  have sel: "model_silhouette \<lparr>cluster_assignments = asg, model_silhouette = ?sil\<rparr> = ?sil"
    by simp
  show ?thesis
  proof (intro exI conjI impI allI)
    show "main py sk a (JList tracks) = Inr \<lparr>cluster_assignments = asg, model_silhouette = ?sil\<rparr>"
      by (rule run)
  next
    assume "length tracks < 50 \<or> arg_k a < 2 \<or> arg_silhouette_sample a < 50"
    then show "model_silhouette \<lparr>cluster_assignments = asg, model_silhouette = ?sil\<rparr> = None"
      unfolding sel using len by (rule silhouette_small)
  next
    assume "50 \<le> length tracks \<and> 2 \<le> arg_k a \<and> 50 \<le> arg_silhouette_sample a"
    then show "model_silhouette \<lparr>cluster_assignments = asg, model_silhouette = ?sil\<rparr> =
                    (case silhouette_score sk fd labels
                            (random_sample sk (length tracks)
                               (nat (min (arg_silhouette_sample a) (int (length tracks))))) of
                       Inl e \<Rightarrow> None
                     | Inr s \<Rightarrow> Some s)"
      unfolding sel using len by (intro silhouette_large) simp_all
  next
    fix s
    assume c: "\<forall>s. silhouette_score sk fd labels
                       (random_sample sk (length tracks)
                          (nat (min (arg_silhouette_sample a) (int (length tracks))))) = Inr s
                   \<longrightarrow> - 1 \<le> s \<and> s \<le> 1"
      and v: "model_silhouette \<lparr>cluster_assignments = asg, model_silhouette = ?sil\<rparr> = Some s"
    have "?sil = Some s" using v unfolding sel .
    then have "silhouette_score sk fd labels
           (random_sample sk (length tracks)
              (nat (min (arg_silhouette_sample a) (int (length tracks))))) = Inr s"
      using len by (rule silhouette_value)
    with c show "- 1 \<le> s" and "s \<le> 1" by blast+
  qed
qed

theorem silhouette_of_the_run_witness:
  "\<exists>out. main \<lparr>float_of_str = (\<lambda>s. None), str_of = (\<lambda>v. [])\<rparr>
        \<lparr>fit_predict = (\<lambda>fd k. Inr (map (\<lambda>f. if map_of f ''sp__popularity'' = Some (Fin 10)
                                                then 0 else 1) fd)),
         silhouette_score = (\<lambda>Xs labels idx. Inr 1),
         random_sample = (\<lambda>n m. [0 ..< m])\<rparr>
        \<lparr>arg_k = 2, arg_silhouette_sample = 1500\<rparr>
        (JList (replicate 25 (JDict [(''id'', JStr ''a''), (''popularity'', JInt 10)])
                @ replicate 25 (JDict [(''id'', JStr ''b''), (''popularity'', JInt 90)]))) = Inr out
     \<and> model_silhouette out = Some 1"
proof -
  let ?py = "\<lparr>float_of_str = (\<lambda>s. None), str_of = (\<lambda>v. [])\<rparr>"
  let ?sk = "\<lparr>fit_predict = (\<lambda>fd k. Inr (map (\<lambda>f. if map_of f ''sp__popularity'' = Some (Fin 10)
                                                then 0 else 1) fd)),
         silhouette_score = (\<lambda>Xs labels idx. Inr 1),
         random_sample = (\<lambda>n m. [0 ..< m])\<rparr>"
  let ?a = "\<lparr>arg_k = 2, arg_silhouette_sample = 1500\<rparr>"
  let ?tracks = "replicate 25 (JDict [(''id'', JStr ''a''), (''popularity'', JInt 10)])
                @ replicate 25 (JDict [(''id'', JStr ''b''), (''popularity'', JInt 90)])"
  have "case collect (map (featurize_track ?py) ?tracks) of Inl e \<Rightarrow> False | Inr fd \<Rightarrow> True"
    by code_simp
  then obtain fd where fd: "collect (map (featurize_track ?py) ?tracks) = Inr fd"
    by (auto split: sum.splits)
  define labels where "labels = map (\<lambda>f. if map_of f ''sp__popularity'' = Some (Fin 10)
                                                then 0 else (1::int)) fd"
  have lab: "fit_predict ?sk fd (arg_k ?a) = Inr labels"
    by (simp add: labels_def)
  from silhouette_of_the_run [OF fd lab] obtain out where
    run: "main ?py ?sk ?a (JList ?tracks) = Inr out"
    and large: "50 \<le> length ?tracks \<and> 2 \<le> arg_k ?a \<and> 50 \<le> arg_silhouette_sample ?a
              \<longrightarrow> model_silhouette out =
                    (case silhouette_score ?sk fd labels
                            (random_sample ?sk (length ?tracks)
                               (nat (min (arg_silhouette_sample ?a) (int (length ?tracks))))) of
                       Inl e \<Rightarrow> None
                     | Inr s \<Rightarrow> Some s)"
    by blast
  have "50 \<le> length ?tracks \<and> 2 \<le> arg_k ?a \<and> 50 \<le> arg_silhouette_sample ?a"
    by simp
  with large have "model_silhouette out = Some 1"
    by simp
  with run show ?thesis by blast
qed

text \<open>
  C4 as stated fails: 50 tracks in two groups, \<open>k = 2\<close> and a scorer that would return 1.0,
  with the sample cap set to 10, export the silhouette \<^verbatim>\<open>None\<close>.
\<close>

theorem silhouette_null_with_small_cap:
  "map_sum id model_silhouette
     (main \<lparr>float_of_str = (\<lambda>s. None), str_of = (\<lambda>v. [])\<rparr>
        \<lparr>fit_predict = (\<lambda>fd k. Inr (map (\<lambda>f. if map_of f ''sp__popularity'' = Some (Fin 10)
                                                then 0 else 1) fd)),
         silhouette_score = (\<lambda>Xs labels idx. Inr 1),
         random_sample = (\<lambda>n m. [0 ..< m])\<rparr>
        \<lparr>arg_k = 2, arg_silhouette_sample = 10\<rparr>
        (JList (replicate 25 (JDict [(''id'', JStr ''a''), (''popularity'', JInt 10)])
                @ replicate 25 (JDict [(''id'', JStr ''b''), (''popularity'', JInt 90)]))))
   = Inr None"
  by code_simp

section \<open>Properties of the audio descriptors\<close>

lemma np_max_Max:
  "np_max xs = (if xs = [] then Inl ValueError else Inr (Max (set xs)))"
proof (cases xs)
  case Nil
  then show ?thesis by (simp add: np_max_def)
next
  case (Cons a r)
  then show ?thesis
    using Max.set_eq_fold [of a r] by (simp add: np_max_def)
qed

lemma index_of_less:
  "v \<in> set xs \<Longrightarrow> index_of v xs < length xs"
  by (induction xs) auto

lemma length_np_roll:
  "length (np_roll xs k) = length xs"
proof -
  have "length xs - j + min (length xs) j = length xs" if "j \<le> length xs" for j
    using that by arith
  from this [of "length xs - k mod length xs"] show ?thesis
    unfolding np_roll_def Let_def by simp
qed


lemma corrs_exist:
  assumes "length chroma_mean = length template"
  shows "\<exists>corrs. collect (map (\<lambda>k. np_dot chroma_mean (np_roll template k)) [0 ..< 12]) = Inr corrs"
proof (rule collect_all_Inr)
  show "\<forall>k \<in> set [0 ..< 12]. \<exists>v. np_dot chroma_mean (np_roll template k) = Inr v"
    using assms by (simp add: np_dot_def length_np_roll)
qed

lemma corrs_length:
  assumes "collect (map f [0 ..< 12]) = Inr corrs"
  shows "length corrs = 12"
proof -
  have "length corrs = length (map f [0 ..< 12])"
    using assms by (rule collect_Inr_length)
  then show ?thesis by simp
qed

lemma best_corr_unfold:
  assumes "collect (map (\<lambda>k. np_dot chroma_mean (np_roll template k)) [0 ..< 12]) = Inr corrs"
  shows "best_corr chroma_mean template = Inr (index_of (Max (set corrs)) corrs, Max (set corrs))"
proof -
  have "corrs \<noteq> []"
    using corrs_length [OF assms] by auto
  then show ?thesis
    unfolding best_corr_def assms bind_err_def np_argmax_def np_max_Max by simp
qed

lemma best_corr_Inr:
  assumes "length chroma_mean = length template"
  shows "\<exists>k c. best_corr chroma_mean template = Inr (k, c)"
  using corrs_exist [OF assms] best_corr_unfold by blast

lemma best_corr_key:
  assumes "best_corr chroma_mean template = Inr (k, c)"
  shows "k < 12"
proof -
  let ?f = "\<lambda>k. np_dot chroma_mean (np_roll template k)"
  obtain corrs where corrs: "collect (map ?f [0 ..< 12]) = Inr corrs"
  proof (cases "collect (map ?f [0 ..< 12])")
    case (Inl e)
    then have "best_corr chroma_mean template = Inl e"
      unfolding best_corr_def bind_err_def by simp
    with assms show ?thesis by simp
  next
    case (Inr v)
    then show ?thesis by (rule that)
  qed
  have len: "length corrs = 12"
    using corrs by (rule corrs_length)
  then have ne: "corrs \<noteq> []" by auto
  have "Max (set corrs) \<in> set corrs"
    using ne by (intro Max_in) auto
  then have lt: "index_of (Max (set corrs)) corrs < 12"
    using index_of_less len by metis
  have "k = index_of (Max (set corrs)) corrs"
    using assms best_corr_unfold [OF corrs] by auto
  with lt show ?thesis by simp
qed


lemma collect_np_mean:
  assumes "\<forall>row \<in> set chroma. row \<noteq> []"
  shows "collect (map np_mean chroma) = Inr (map (\<lambda>row. sum_list row / real (length row)) chroma)"
  using assms by (induction chroma) (simp_all add: np_mean_def bind_err_def)

lemma sum_list_nonneg_real:
  fixes xs :: "real list"
  shows "\<forall>x \<in> set xs. 0 \<le> x \<Longrightarrow> 0 \<le> sum_list xs"
  by (induction xs) simp_all

lemma chroma_profile_defined:
  assumes "\<forall>row \<in> set chroma. row \<noteq> [] \<and> (\<forall>x \<in> set row. 0 \<le> x)"
  shows "\<exists>chroma_mean. chroma_profile chroma = Inr chroma_mean \<and> length chroma_mean = length chroma"
proof -
  let ?rm = "map (\<lambda>row. sum_list row / real (length row)) chroma"
  have c: "collect (map np_mean chroma) = Inr ?rm"
    using assms by (intro collect_np_mean) blast
  have "\<forall>x \<in> set ?rm. 0 \<le> x"
    using assms by (auto intro!: divide_nonneg_nonneg sum_list_nonneg_real)
  then have "0 \<le> sum_list ?rm"
    by (rule sum_list_nonneg_real)
  moreover have "0 < eps12" by (simp add: eps12_def)
  ultimately have "sum_list ?rm + eps12 \<noteq> 0" by linarith
  then show ?thesis
    unfolding chroma_profile_def c bind_err_def by simp
qed

lemma chroma_profile_length:
  assumes "chroma_profile chroma = Inr chroma_mean"
  shows "length chroma_mean = length chroma"
proof (cases "collect (map np_mean chroma)")
  case (Inl e)
  with assms show ?thesis by (simp add: chroma_profile_def bind_err_def)
next
  case (Inr rm)
  then have "length rm = length (map np_mean chroma)" by (rule collect_Inr_length)
  with assms Inr show ?thesis
    by (auto simp: chroma_profile_def bind_err_def split: if_splits)
qed

text \<open>
  C6: on a chroma matrix of 12 non-empty rows of non-negative values \<^verbatim>\<open>key_and_mode\<close>
  returns a key below 12, a mode that is 0 or 1 and a confidence that is at least 0 and
  equals the absolute difference of the best major and the best minor correlation.
\<close>

theorem key_and_mode_range:
  assumes "length chroma = 12"
    and "\<forall>row \<in> set chroma. row \<noteq> [] \<and> (\<forall>x \<in> set row. 0 \<le> x)"
  shows "\<exists>chroma_mean kM cM km cm key mode conf.
           chroma_profile chroma = Inr chroma_mean
         \<and> best_corr chroma_mean (l1_normalise major_profile) = Inr (kM, cM)
         \<and> best_corr chroma_mean (l1_normalise minor_profile) = Inr (km, cm)
         \<and> key_and_mode chroma = Inr (key, mode, conf)
         \<and> key < 12 \<and> (mode = 0 \<or> mode = 1) \<and> 0 \<le> conf \<and> conf = \<bar>cM - cm\<bar>"
proof -
  from chroma_profile_defined [OF assms(2)] obtain chroma_mean where
    cp: "chroma_profile chroma = Inr chroma_mean" and len: "length chroma_mean = 12"
    using assms(1) by auto
  have "length chroma_mean = length (l1_normalise major_profile)"
    using len by (simp add: l1_normalise_def major_profile_def)
  then obtain kM cM where bM: "best_corr chroma_mean (l1_normalise major_profile) = Inr (kM, cM)"
    using best_corr_Inr by blast
  have "length chroma_mean = length (l1_normalise minor_profile)"
    using len by (simp add: l1_normalise_def minor_profile_def)
  then obtain km cm where bm: "best_corr chroma_mean (l1_normalise minor_profile) = Inr (km, cm)"
    using best_corr_Inr by blast
  have kM: "kM < 12" using bM by (rule best_corr_key)
  have km: "km < 12" using bm by (rule best_corr_key)
  have run: "key_and_mode chroma =
      (if cm \<le> cM then Inr (kM, 1, cM - cm) else Inr (km, 0, cm - cM))"
    unfolding key_and_mode_def cp bind_err_def Let_def by (simp add: bM bm)
  show ?thesis
  proof (cases "cm \<le> cM")
    case True
    with run cp bM bm kM show ?thesis by auto
  next
    case False
    with run cp bM bm km show ?thesis by auto
  qed
qed

text \<open>
  C10: when the best major correlation equals the best minor correlation,
  \<^verbatim>\<open>key_and_mode\<close> returns the major rotation, mode 1 and confidence 0.
\<close>

theorem key_and_mode_tie:
  assumes "chroma_profile chroma = Inr chroma_mean"
    and "best_corr chroma_mean (l1_normalise major_profile) = Inr (kM, cM)"
    and "best_corr chroma_mean (l1_normalise minor_profile) = Inr (km, cm)"
    and "cM = cm"
  shows "key_and_mode chroma = Inr (kM, 1, 0)"
  unfolding key_and_mode_def assms(1) bind_err_def Let_def
  by (simp add: assms(2,3,4))


lemma collect_const:
  "\<forall>x \<in> set xs. f x = Inr c \<Longrightarrow> collect (map f xs) = Inr (replicate (length xs) c)"
  by (induction xs) (simp_all add: bind_err_def)

lemma np_dot_zero:
  "length ys = n \<Longrightarrow> np_dot (replicate n 0) ys = Inr 0"
proof -
  have "sum_list (map2 (*) (replicate (length ys) (0::real)) ys) = 0"
    by (induction ys) simp_all
  then show "length ys = n \<Longrightarrow> np_dot (replicate n 0) ys = Inr 0"
    by (auto simp: np_dot_def)
qed

lemma best_corr_zero:
  assumes "length template = 12"
  shows "best_corr (replicate 12 0) template = Inr (0, 0)"
proof -
  let ?f = "\<lambda>k. np_dot (replicate 12 0) (np_roll template k)"
  have "\<forall>k \<in> set [0 ..< 12]. ?f k = Inr 0"
    using assms by (simp add: np_dot_zero length_np_roll)
  then have "collect (map ?f [0 ..< 12]) = Inr (replicate (length [0 ..< 12]) 0)"
    by (rule collect_const)
  then have c: "collect (map ?f [0 ..< 12]) = Inr (replicate 12 0)"
    by simp
  have m: "Max (set (replicate 12 (0::real))) = 0"
    by simp
  have i: "index_of 0 (replicate 12 (0::real)) = 0"
    by (simp add: eval_nat_numeral)
  show ?thesis
    using best_corr_unfold [OF c] by (simp only: m i)
qed

lemma chroma_profile_silent:
  "chroma_profile (replicate 12 [0]) = Inr (replicate 12 0)"
proof -
  have "collect (map np_mean (replicate 12 [0])) = Inr (replicate (length (replicate 12 [0::real])) 0)"
    unfolding map_replicate [symmetric]
    by (intro collect_const) (simp add: np_mean_def)
  then have c: "collect (map np_mean (replicate 12 [0])) = Inr (replicate 12 0)"
    by simp
  show ?thesis
    unfolding chroma_profile_def c bind_err_def by (simp add: eps12_def sum_list_replicate)
qed

theorem key_and_mode_tie_witness:
  "chroma_profile (replicate 12 [0]) = Inr (replicate 12 0)
   \<and> best_corr (replicate 12 0) (l1_normalise major_profile) = Inr (0, 0)
   \<and> best_corr (replicate 12 0) (l1_normalise minor_profile) = Inr (0, 0)
   \<and> (0::real) = 0
   \<and> key_and_mode (replicate 12 [0]) = Inr (0, 1, 0)"
proof -
  have M: "best_corr (replicate 12 0) (l1_normalise major_profile) = Inr (0, 0)"
    by (rule best_corr_zero) (simp add: l1_normalise_def major_profile_def)
  have m: "best_corr (replicate 12 0) (l1_normalise minor_profile) = Inr (0, 0)"
    by (rule best_corr_zero) (simp add: l1_normalise_def minor_profile_def)
  show ?thesis
    using key_and_mode_tie [OF chroma_profile_silent M m] chroma_profile_silent M m by simp
qed

theorem key_and_mode_range_witness:
  "length (replicate 12 [0::real]) = 12
   \<and> list_all (\<lambda>row. row \<noteq> [] \<and> list_all (\<lambda>x. 0 \<le> x) row) (replicate 12 [0::real])
   \<and> (\<exists>key mode conf. key_and_mode (replicate 12 [0]) = Inr (key, mode, conf)
         \<and> key < 12 \<and> (mode = 0 \<or> mode = 1) \<and> 0 \<le> conf)"
proof -
  have a: "length (replicate 12 [0::real]) = 12" by simp
  have b: "\<forall>row \<in> set (replicate 12 [0::real]). row \<noteq> [] \<and> (\<forall>x \<in> set row. 0 \<le> x)" by simp
  have c: "list_all (\<lambda>row. row \<noteq> [] \<and> list_all (\<lambda>x. 0 \<le> x) row) (replicate 12 [0::real])"
    by (simp add: list_all_iff)
  from key_and_mode_range [OF a b] show ?thesis
    using a c by blast
qed

lemma np_std_defined:
  "xs \<noteq> [] \<Longrightarrow> \<exists>sd. np_std xs = Inr sd"
  by (simp add: np_std_def np_mean_def bind_err_def)

text \<open>
  C5: every result of \<^verbatim>\<open>time_signature_guess\<close> has time signature 3 or 4; the result is
  (4, 0.0) when the beat array is missing or has fewer than 8 beats, and when the standard
  deviation of the mean-centred beat accents is below 1e-6; and the function returns
  whenever the beat accents are a non-empty array.
\<close>

theorem time_signature_guess_default:
  "(\<forall>ts c. time_signature_guess sync onset_env beats = Inr (ts, c) \<longrightarrow> ts = 3 \<or> ts = 4)
   \<and> (beats = None \<or> (\<exists>bs. beats = Some bs \<and> length bs < 8)
        \<longrightarrow> time_signature_guess sync onset_env beats = Inr (4, 0))
   \<and> (\<forall>bs m sd. beats = Some bs \<and> np_mean (sync onset_env bs) = Inr m
          \<and> np_std (map (\<lambda>x. x - m) (sync onset_env bs)) = Inr sd \<and> sd < 1 / 10 ^ 6
        \<longrightarrow> time_signature_guess sync onset_env beats = Inr (4, 0))
   \<and> (\<forall>bs. beats = Some bs \<and> sync onset_env bs \<noteq> []
        \<longrightarrow> (\<exists>r. time_signature_guess sync onset_env beats = Inr r))"
proof (intro conjI allI impI)
  fix ts c
  assume "time_signature_guess sync onset_env beats = Inr (ts, c)"
  then show "ts = 3 \<or> ts = 4"
    by (auto simp: time_signature_guess_def bind_err_def Let_def
             split: option.splits if_splits sum.splits)
next
  assume "beats = None \<or> (\<exists>bs. beats = Some bs \<and> length bs < 8)"
  then show "time_signature_guess sync onset_env beats = Inr (4, 0)"
    by (auto simp: time_signature_guess_def)
next
  fix bs m sd
  assume "beats = Some bs \<and> np_mean (sync onset_env bs) = Inr m
          \<and> np_std (map (\<lambda>x. x - m) (sync onset_env bs)) = Inr sd \<and> sd < 1 / 10 ^ 6"
  then show "time_signature_guess sync onset_env beats = Inr (4, 0)"
    by (auto simp: time_signature_guess_def bind_err_def Let_def np_mean_def split: if_splits)
next
  fix bs
  assume a: "beats = Some bs \<and> sync onset_env bs \<noteq> []"
  let ?s = "sync onset_env bs"
  obtain m where m: "np_mean ?s = Inr m"
    using a by (simp add: np_mean_def)
  let ?e = "map (\<lambda>x. x - m) ?s"
  have ne: "?e \<noteq> []" using a by simp
  obtain sd where sd: "np_std ?e = Inr sd"
    using np_std_defined [OF ne] by blast
  obtain full where full: "np_correlate_full ?e ?e = Inr full"
    using ne by (simp add: np_correlate_full_def)
  show "\<exists>r. time_signature_guess sync onset_env beats = Inr r"
    using a m sd full by (simp add: time_signature_guess_def bind_err_def Let_def)
qed

theorem time_signature_guess_default_witness:
  "np_mean ((\<lambda>env bs. replicate 9 1) [] [10, 20, 30, 40, 50, 60, 70, 80 :: nat]) = Inr 1
   \<and> np_std (map (\<lambda>x. x - 1) ((\<lambda>env bs. replicate 9 1) [] [10, 20, 30, 40, 50, 60, 70, 80 :: nat])) = Inr 0
   \<and> (0::real) < 1 / 10 ^ 6
   \<and> time_signature_guess (\<lambda>env bs. replicate 9 1) [] (Some [10, 20, 30, 40, 50, 60, 70, 80]) = Inr (4, 0)"
proof -
  let ?sync = "\<lambda>(env::real list) (bs::nat list). replicate 9 (1::real)"
  let ?bs = "[10, 20, 30, 40, 50, 60, 70, 80 :: nat]"
  have m: "np_mean (?sync [] ?bs) = Inr 1"
    by (simp add: np_mean_def sum_list_replicate)
  have sd: "np_std (map (\<lambda>x. x - 1) (?sync [] ?bs)) = Inr 0"
    by (simp add: np_std_def np_mean_def bind_err_def sum_list_replicate)
  have lt: "(0::real) < 1 / 10 ^ 6" by simp
  from time_signature_guess_default [of ?sync "[]" "Some ?bs"]
  have "time_signature_guess ?sync [] (Some ?bs) = Inr (4, 0)"
    using m sd lt by blast
  with m sd lt show ?thesis by blast
qed

section \<open>Properties of the descriptors computed in binary64\<close>

subsection \<open>Rounding to the nearest double\<close>

text \<open>
  Rounding is monotone and odd, it leaves every double as it is, and it can be evaluated
  at a number whose exponent and nearest integer multiple are given.
\<close>

lemma round_even_near:
  assumes "\<bar>t - of_int k\<bar> < 1 / 2"
  shows "round_even t = k"
proof -
  have "\<lfloor>t\<rfloor> = k \<or> \<lfloor>t\<rfloor> = k - 1"
    using assms by linarith
  then show ?thesis
  proof
    assume f: "\<lfloor>t\<rfloor> = k"
    then have "t - of_int k < 1 / 2" using assms by linarith
    then show ?thesis by (simp add: round_even_def f)
  next
    assume f: "\<lfloor>t\<rfloor> = k - 1"
    have "1 / 2 < t - (of_int k - 1)" using assms by linarith
    then show ?thesis by (simp add: round_even_def f)
  qed
qed

lemma round_even_of_int: "round_even (of_int k) = k"
  by (rule round_even_near) simp

lemma round_even_ge:
  assumes "of_int k \<le> t"
  shows "k \<le> round_even t"
proof -
  have "k \<le> \<lfloor>t\<rfloor>" using assms by (simp add: round_even_of_int le_floor_iff)
  then show ?thesis by (auto simp: round_even_of_int round_even_def Let_def)
qed

lemma round_even_le:
  assumes "t \<le> of_int k"
  shows "round_even t \<le> k"
proof (cases "t = of_int k")
  case True
  then show ?thesis by (simp add: round_even_of_int)
next
  case False
  then have "t < of_int k" using assms by (simp add: round_even_of_int)
  then have "\<lfloor>t\<rfloor> < k" by (simp add: round_even_of_int floor_less_iff)
  then show ?thesis by (auto simp: round_even_of_int round_even_def Let_def)
qed

lemma ulp_exp_eval:
  assumes "2 powr of_int (e + 52) \<le> \<bar>x\<bar>" and "\<bar>x\<bar> < 2 powr of_int (e + 53)" and "- 1074 \<le> e"
  shows "ulp_exp x = e"
proof -
  have pos: "0 < \<bar>x\<bar>" using assms(1) by (smt (verit) powr_gt_zero)
  have "of_int (e + 52) \<le> log 2 \<bar>x\<bar>"
    using assms(1) pos by (simp add: round_even_of_int le_log_iff)
  moreover have "log 2 \<bar>x\<bar> < of_int (e + 52) + 1"
    using assms(2) pos by (simp add: round_even_of_int log_less_iff add.commute algebra_simps)
  ultimately have "\<lfloor>log 2 \<bar>x\<bar>\<rfloor> = e + 52"
    by (intro floor_unique) (auto simp: round_even_of_int)
  then show ?thesis using assms(3) by (simp add: round_even_of_int ulp_exp_def)
qed

lemma fl_eval:
  assumes "2 powr of_int (e + 52) \<le> \<bar>x\<bar>" and "\<bar>x\<bar> < 2 powr of_int (e + 53)" and "- 1074 \<le> e"
    and "\<bar>x / 2 powr of_int e - of_int k\<bar> < 1 / 2"
  shows "fl x = of_int k * 2 powr of_int e"
proof -
  have "x \<noteq> 0" using assms(1) by (smt (verit) powr_gt_zero)
  then show ?thesis
    using ulp_exp_eval [OF assms(1-3)] round_even_near [OF assms(4)] by (simp add: round_even_of_int fl_def)
qed


lemma round_even_mono:
  assumes "s \<le> t"
  shows "round_even s \<le> round_even t"
proof (cases "\<lfloor>s\<rfloor> = \<lfloor>t\<rfloor>")
  case True
  then show ?thesis using assms by (auto simp: round_even_of_int round_even_def Let_def)
next
  case False
  then have "\<lfloor>s\<rfloor> < \<lfloor>t\<rfloor>"
    using assms floor_mono [of s t] by linarith
  moreover have "round_even s \<le> \<lfloor>s\<rfloor> + 1" by (auto simp: round_even_of_int round_even_def Let_def)
  moreover have "\<lfloor>t\<rfloor> \<le> round_even t" by (auto simp: round_even_of_int round_even_def Let_def)
  ultimately show ?thesis by linarith
qed

lemma round_even_minus:
  "round_even (- t) = - round_even t"
proof (cases "t = of_int \<lfloor>t\<rfloor>")
  case True
  then have "round_even t = \<lfloor>t\<rfloor>" by (metis round_even_of_int)
  moreover have "round_even (- t) = - \<lfloor>t\<rfloor>"
    using True by (metis of_int_minus round_even_of_int)
  ultimately show ?thesis by (simp add: round_even_of_int)
next
  case False
  have fl: "of_int \<lfloor>t\<rfloor> < t" using False by (smt (verit) of_int_floor_le)
  have f: "\<lfloor>- t\<rfloor> = - \<lfloor>t\<rfloor> - 1"
    using fl by (intro floor_unique) (auto simp: round_even_of_int, linarith)
  show ?thesis
    unfolding round_even_def Let_def f using fl by (auto simp: round_even_of_int algebra_simps)
qed

lemma log2_bracket:
  assumes "x \<noteq> 0"
  shows "2 powr of_int \<lfloor>log 2 \<bar>x\<bar>\<rfloor> \<le> \<bar>x\<bar>" and "\<bar>x\<bar> < 2 powr of_int (\<lfloor>log 2 \<bar>x\<bar>\<rfloor> + 1)"
proof -
  have pos: "0 < \<bar>x\<bar>" using assms by (simp add: round_even_of_int)
  have "of_int \<lfloor>log 2 \<bar>x\<bar>\<rfloor> \<le> log 2 \<bar>x\<bar>" by (simp add: round_even_of_int)
  then show "2 powr of_int \<lfloor>log 2 \<bar>x\<bar>\<rfloor> \<le> \<bar>x\<bar>"
    using pos by (simp add: round_even_of_int powr_le_iff)
  have "log 2 \<bar>x\<bar> < of_int (\<lfloor>log 2 \<bar>x\<bar>\<rfloor> + 1)" by (simp add: round_even_of_int)
  then show "\<bar>x\<bar> < 2 powr of_int (\<lfloor>log 2 \<bar>x\<bar>\<rfloor> + 1)"
    using pos by (simp add: round_even_of_int less_powr_iff)
qed


lemma two_powr_int_add: "2 powr of_int (a + b) = 2 powr of_int a * (2::real) powr of_int b"
  by (simp add: round_even_of_int powr_add)

lemma scaled_bounds:
  assumes "x \<noteq> 0"
  shows "\<bar>x\<bar> / 2 powr of_int (ulp_exp x) < 2 ^ 53"
    and "- 1074 < ulp_exp x \<Longrightarrow> 2 ^ 52 \<le> \<bar>x\<bar> / 2 powr of_int (ulp_exp x)"
proof -
  let ?L = "\<lfloor>log 2 \<bar>x\<bar>\<rfloor>"
  let ?e = "ulp_exp x"
  have up: "\<bar>x\<bar> < 2 powr of_int (?L + 1)" using log2_bracket(2) [OF assms] .
  have "?L + 1 \<le> ?e + 53" by (simp add: round_even_of_int ulp_exp_def)
  then have "(2::real) powr of_int (?L + 1) \<le> 2 powr of_int (?e + 53)"
    by (intro powr_mono) (auto simp: round_even_of_int)
  then have "\<bar>x\<bar> < 2 powr of_int (?e + 53)" using up by linarith
  then have "\<bar>x\<bar> < 2 powr of_int ?e * 2 ^ 53"
    by (simp add: round_even_of_int powr_add)
  then show "\<bar>x\<bar> / 2 powr of_int ?e < 2 ^ 53"
    by (simp add: round_even_of_int pos_divide_less_eq mult.commute)
  assume "- 1074 < ?e"
  then have e: "?e = ?L - 52" by (simp add: round_even_of_int ulp_exp_def max_def split: if_splits)
  have "2 powr of_int ?L \<le> \<bar>x\<bar>" using log2_bracket(1) [OF assms] .
  moreover have "(2::real) powr of_int ?L = 2 powr of_int ?e * 2 ^ 52"
  proof -
    have "?L = ?e + 52" using e by (simp add: round_even_of_int)
    then have "(2::real) powr of_int ?L = 2 powr of_int (?e + 52)" by (simp add: round_even_of_int)
    then show ?thesis by (simp add: round_even_of_int powr_add)
  qed
  ultimately show "2 ^ 52 \<le> \<bar>x\<bar> / 2 powr of_int ?e"
    by (simp add: round_even_of_int pos_le_divide_eq mult.commute)
qed

lemma ulp_exp_minus: "ulp_exp (- x) = ulp_exp x"
  by (simp add: round_even_of_int ulp_exp_def)

lemma fl_minus: "fl (- x) = - fl x"
  by (simp add: round_even_of_int ulp_exp_minus fl_def round_even_minus)

lemma fl_zero: "fl 0 = 0"
  by (simp add: round_even_of_int ulp_exp_minus fl_def)

lemma fl_nonneg:
  assumes "0 \<le> x"
  shows "0 \<le> fl x"
proof (cases "x = 0")
  case True
  then show ?thesis by (simp add: round_even_of_int ulp_exp_minus fl_zero)
next
  case False
  have "0 \<le> x / 2 powr of_int (ulp_exp x)" using assms by (simp add: round_even_of_int ulp_exp_minus fl_zero)
  then have "0 \<le> round_even (x / 2 powr of_int (ulp_exp x))"
    using round_even_ge [of 0] by (simp add: round_even_of_int ulp_exp_minus fl_zero)
  then show ?thesis using False by (simp add: round_even_of_int ulp_exp_minus fl_zero fl_def)
qed

lemma ulp_exp_mono:
  assumes "0 < x" and "x \<le> y"
  shows "ulp_exp x \<le> ulp_exp y"
proof -
  have "log 2 \<bar>x\<bar> \<le> log 2 \<bar>y\<bar>" using assms by (simp add: round_even_of_int ulp_exp_minus fl_zero)
  then have "\<lfloor>log 2 \<bar>x\<bar>\<rfloor> \<le> \<lfloor>log 2 \<bar>y\<bar>\<rfloor>" by (rule floor_mono)
  then show ?thesis by (simp add: round_even_of_int ulp_exp_minus fl_zero ulp_exp_def)
qed

lemma fl_mono_pos:
  assumes "0 < x" and "x \<le> y"
  shows "fl x \<le> fl y"
proof -
  let ?ex = "ulp_exp x" and ?ey = "ulp_exp y"
  have x0: "x \<noteq> 0" and y0: "y \<noteq> 0" and ypos: "0 < y" using assms by (auto simp: round_even_of_int ulp_exp_minus fl_zero)
  have le: "?ex \<le> ?ey" using assms by (rule ulp_exp_mono)
  show ?thesis
  proof (cases "?ex = ?ey")
    case True
    have "x / 2 powr of_int ?ey \<le> y / 2 powr of_int ?ey"
      using assms(2) by (simp add: round_even_of_int ulp_exp_minus fl_zero divide_right_mono)
    then have "round_even (x / 2 powr of_int ?ey) \<le> round_even (y / 2 powr of_int ?ey)"
      by (rule round_even_mono)
    then have "real_of_int (round_even (x / 2 powr of_int ?ey)) * 2 powr of_int ?ey
        \<le> real_of_int (round_even (y / 2 powr of_int ?ey)) * 2 powr of_int ?ey"
      by (intro mult_right_mono) (auto simp: round_even_of_int ulp_exp_minus fl_zero)
    then show ?thesis using x0 y0 True by (simp add: round_even_of_int ulp_exp_minus fl_zero fl_def)
  next
    case False
    have lo: "- 1074 \<le> ?ex" by (simp add: round_even_of_int ulp_exp_minus fl_zero ulp_exp_def)
    have lt: "?ex + 1 \<le> ?ey" and n: "- 1074 < ?ey"
      using False le lo by linarith+
    have "x / 2 powr of_int ?ex \<le> of_int (2 ^ 53)"
      using scaled_bounds(1) [OF x0] assms(1) by (simp add: round_even_of_int ulp_exp_minus fl_zero)
    then have "round_even (x / 2 powr of_int ?ex) \<le> 2 ^ 53"
      by (rule round_even_le)
    then have "real_of_int (round_even (x / 2 powr of_int ?ex)) \<le> 2 ^ 53"
      by (metis of_int_le_iff of_int_numeral of_int_power)
    then have "fl x \<le> 2 ^ 53 * 2 powr of_int ?ex"
      using x0 by (simp add: round_even_of_int ulp_exp_minus fl_zero fl_def mult_right_mono)
    also have "\<dots> = 2 powr of_int (?ex + 1) * 2 ^ 52"
      by (simp add: round_even_of_int ulp_exp_minus fl_zero powr_add)
    also have "\<dots> \<le> 2 powr of_int ?ey * 2 ^ 52"
      using lt by (intro mult_right_mono powr_mono) (auto simp: round_even_of_int ulp_exp_minus fl_zero)
    finally have a: "fl x \<le> 2 powr of_int ?ey * 2 ^ 52" .
    have "of_int (2 ^ 52) \<le> y / 2 powr of_int ?ey"
      using scaled_bounds(2) [OF y0 n] ypos by (simp add: round_even_of_int ulp_exp_minus fl_zero)
    then have "2 ^ 52 \<le> round_even (y / 2 powr of_int ?ey)"
      by (rule round_even_ge)
    then have "(2::real) ^ 52 \<le> real_of_int (round_even (y / 2 powr of_int ?ey))"
      by (metis of_int_le_iff of_int_numeral of_int_power)
    then have "2 ^ 52 * 2 powr of_int ?ey \<le> fl y"
      using y0 by (simp add: round_even_of_int ulp_exp_minus fl_zero fl_def mult_right_mono)
    with a show ?thesis by (simp add: round_even_of_int ulp_exp_minus fl_zero mult.commute)
  qed
qed

lemma fl_mono:
  assumes "x \<le> y"
  shows "fl x \<le> fl y"
proof -
  consider "0 < x" | "x \<le> 0" "0 \<le> y" | "y < 0" using assms by linarith
  then show ?thesis
  proof cases
    case 1
    then show ?thesis using assms by (rule fl_mono_pos)
  next
    case 2
    have "fl x \<le> 0" using fl_nonneg [of "- x"] 2(1) by (simp add: round_even_of_int ulp_exp_minus fl_zero fl_minus)
    moreover have "0 \<le> fl y" using 2(2) by (rule fl_nonneg)
    ultimately show ?thesis by linarith
  next
    case 3
    have "fl (- y) \<le> fl (- x)" using 3 assms by (intro fl_mono_pos) (auto simp: round_even_of_int ulp_exp_minus fl_zero)
    then show ?thesis by (simp add: round_even_of_int ulp_exp_minus fl_zero fl_minus)
  qed
qed


lemma fl_repr_pos:
  assumes "0 < k" and "k < 2 ^ 53" and "- 1074 \<le> e"
  shows "fl (of_int k * 2 powr of_int e) = of_int k * 2 powr of_int e"
proof -
  define v where "v = real_of_int k * 2 powr of_int e"
  define e' where "e' = ulp_exp v"
  have vpos: "0 < v" using assms(1) by (simp add: round_even_of_int ulp_exp_minus fl_zero v_def)
  have "real_of_int k < 2 ^ 53"
    using assms(2) by (metis of_int_less_iff of_int_numeral of_int_power)
  then have "v < 2 ^ 53 * 2 powr of_int e"
    by (simp add: round_even_of_int ulp_exp_minus fl_zero v_def mult_strict_right_mono)
  also have "\<dots> = 2 powr of_int (e + 53)"
    by (simp add: round_even_of_int ulp_exp_minus fl_zero powr_add)
  finally have "log 2 v < of_int (e + 53)"
    using vpos by (simp add: round_even_of_int ulp_exp_minus fl_zero log_less_iff)
  then have "\<lfloor>log 2 v\<rfloor> < e + 53"
    by (simp add: round_even_of_int ulp_exp_minus fl_zero floor_less_iff)
  then have le: "e' \<le> e"
    using assms(3) vpos by (simp add: round_even_of_int ulp_exp_minus fl_zero ulp_exp_def e'_def)
  define n where "n = nat (e - e')"
  have en: "e = e' + int n" using le by (simp add: round_even_of_int ulp_exp_minus fl_zero n_def)
  have "(2::real) powr of_int e = 2 powr (of_int e' + real n)"
    using en by (metis of_int_add of_int_of_nat_eq)
  then have split: "(2::real) powr of_int e = 2 powr of_int e' * 2 ^ n"
    by (simp add: round_even_of_int ulp_exp_minus fl_zero powr_add powr_realpow)
  have "v / 2 powr of_int e' = real_of_int (k * 2 ^ n)"
    by (simp add: round_even_of_int ulp_exp_minus fl_zero v_def split)
  then have "round_even (v / 2 powr of_int e') = k * 2 ^ n"
    by (metis round_even_of_int)
  then have "fl v = real_of_int (k * 2 ^ n) * 2 powr of_int e'"
    using vpos by (simp add: round_even_of_int ulp_exp_minus fl_zero fl_def e'_def)
  also have "\<dots> = v"
    by (simp add: round_even_of_int ulp_exp_minus fl_zero v_def split)
  finally show ?thesis by (simp add: round_even_of_int ulp_exp_minus fl_zero v_def)
qed

lemma fl_repr:
  assumes "\<bar>k\<bar> < 2 ^ 53" and "- 1074 \<le> e"
  shows "fl (of_int k * 2 powr of_int e) = of_int k * 2 powr of_int e"
proof -
  consider "k = 0" | "0 < k" | "k < 0" by linarith
  then show ?thesis
  proof cases
    case 1
    then show ?thesis by (simp add: round_even_of_int ulp_exp_minus fl_zero)
  next
    case 2
    then show ?thesis using assms by (intro fl_repr_pos) (auto simp: round_even_of_int ulp_exp_minus fl_zero)
  next
    case 3
    then have "fl (of_int (- k) * 2 powr of_int e) = of_int (- k) * 2 powr of_int e"
      using assms by (intro fl_repr_pos) (auto simp: round_even_of_int ulp_exp_minus fl_zero)
    then show ?thesis using fl_minus [of "of_int k * 2 powr of_int e"] by (simp add: round_even_of_int ulp_exp_minus fl_zero)
  qed
qed

lemma fl_of_int:
  assumes "\<bar>k\<bar> < 2 ^ 53"
  shows "fl (of_int k) = of_int k"
  using fl_repr [OF assms, of 0] by (simp add: round_even_of_int ulp_exp_minus fl_zero)

lemma fl_one: "fl 1 = 1"
  using fl_of_int [of 1] by (simp add: round_even_of_int ulp_exp_minus fl_zero)

lemma fl_fl: "fl (fl x) = fl x"
proof -
  have pos: "fl (fl x) = fl x" if x: "0 < x" for x
  proof -
    let ?e = "ulp_exp x"
    let ?k = "round_even (x / 2 powr of_int ?e)"
    have x0: "x \<noteq> 0" using x by (simp add: round_even_of_int ulp_exp_minus fl_zero fl_one)
    have v: "fl x = of_int ?k * 2 powr of_int ?e" using x0 by (simp add: round_even_of_int ulp_exp_minus fl_zero fl_one fl_def)
    have lo: "- 1074 \<le> ?e" by (simp add: round_even_of_int ulp_exp_minus fl_zero fl_one ulp_exp_def)
    have "0 \<le> x / 2 powr of_int ?e" using x by (simp add: round_even_of_int ulp_exp_minus fl_zero fl_one)
    then have k0: "0 \<le> ?k" using round_even_ge [of 0] by (simp add: round_even_of_int ulp_exp_minus fl_zero fl_one)
    have "x / 2 powr of_int ?e \<le> of_int (2 ^ 53)"
      using scaled_bounds(1) [OF x0] x by (simp add: round_even_of_int ulp_exp_minus fl_zero fl_one)
    then have k53: "?k \<le> 2 ^ 53" by (rule round_even_le)
    show ?thesis
    proof (cases "?k = 2 ^ 53")
      case True
      have "fl x = of_int (2 ^ 52) * 2 powr of_int (?e + 1)"
        unfolding v True by (simp add: round_even_of_int ulp_exp_minus fl_zero fl_one powr_add)
      moreover have "fl (of_int (2 ^ 52) * 2 powr of_int (?e + 1)) = of_int (2 ^ 52) * 2 powr of_int (?e + 1)"
        using lo by (intro fl_repr) (auto simp: round_even_of_int ulp_exp_minus fl_zero fl_one)
      ultimately show ?thesis by (simp add: round_even_of_int ulp_exp_minus fl_zero fl_one)
    next
      case False
      then have "\<bar>?k\<bar> < 2 ^ 53" using k0 k53 by linarith
      then show ?thesis unfolding v using lo by (rule fl_repr)
    qed
  qed
  consider "x = 0" | "0 < x" | "x < 0" by linarith
  then show ?thesis
  proof cases
    case 1
    then show ?thesis by (simp add: round_even_of_int ulp_exp_minus fl_zero fl_one)
  next
    case 2
    then show ?thesis by (rule pos)
  next
    case 3
    then have "fl (fl (- x)) = fl (- x)" by (intro pos) (simp add: round_even_of_int ulp_exp_minus fl_zero fl_one)
    then show ?thesis by (simp add: round_even_of_int ulp_exp_minus fl_zero fl_one fl_minus)
  qed
qed

subsection \<open>Sums, means and the guard\<close>

lemma eps_d_eval: "eps_d = 4951760157141521 / 2 ^ 92"
proof -
  have "fl (1 / 10 ^ 12) = of_int 4951760157141521 * 2 powr of_int (- 92)"
    by (rule fl_eval) (simp_all add: round_even_of_int ulp_exp_minus fl_zero fl_one powr_minus_divide abs_less_iff)
  then show ?thesis by (simp add: round_even_of_int ulp_exp_minus fl_zero fl_one eps_d_def powr_minus_divide)
qed

lemma eps_d_pos: "0 < eps_d"
  by (simp add: round_even_of_int ulp_exp_minus fl_zero fl_one eps_d_eval)

lemma fl_eps_d: "fl eps_d = eps_d"
  by (simp add: round_even_of_int ulp_exp_minus fl_zero fl_one eps_d_def fl_fl)

lemma f64_Inr: "f64 x = Inr v \<Longrightarrow> v = fl x"
  by (simp add: round_even_of_int ulp_exp_minus fl_zero fl_one f64_def split: if_splits)

lemma f64_bounded:
  assumes "\<bar>x\<bar> \<le> b" and "fl b = b" and "b < 2 ^ 1024"
  shows "f64 x = Inr (fl x)" and "\<bar>fl x\<bar> \<le> b"
proof -
  have "- b \<le> x" and "x \<le> b" using assms(1) by linarith+
  then have "fl (- b) \<le> fl x" and "fl x \<le> fl b" by (simp_all add: round_even_of_int ulp_exp_minus fl_zero fl_one fl_mono)
  then show b: "\<bar>fl x\<bar> \<le> b" using assms(2) by (simp add: round_even_of_int ulp_exp_minus fl_zero fl_one fl_minus abs_le_iff)
  then show "f64 x = Inr (fl x)" using assms(3) by (simp add: round_even_of_int ulp_exp_minus fl_zero fl_one f64_def)
qed


lemma bind_err_Inr: "bind_err (Inr v) f = f v"
  by (simp add: round_even_of_int ulp_exp_minus fl_zero fl_one bind_err_def)

lemma bind_err_Inl: "bind_err (Inl e) f = Inl e"
  by (simp add: round_even_of_int ulp_exp_minus fl_zero fl_one bind_err_Inr bind_err_def)


lemmas f64_simps = round_even_of_int ulp_exp_minus fl_zero fl_one bind_err_Inr bind_err_Inl

lemma fl_of_nat:
  assumes "n < 2 ^ 53"
  shows "fl (real n) = real n"
proof -
  have "\<bar>int n\<bar> < 2 ^ 53" using assms by (simp add: f64_simps zless_nat_eq_int_zless [symmetric]) 
  then have "fl (of_int (int n)) = of_int (int n)" by (rule fl_of_int)
  then show ?thesis by (simp add: f64_simps)
qed

lemma collect_map_Inr:
  "\<forall>x \<in> set xs. f x = Inr (g x) \<Longrightarrow> collect (map f xs) = Inr (map g xs)"
  by (induction xs) (simp_all add: f64_simps bind_err_def)

lemma collect_map_f64:
  "collect (map (\<lambda>x. f64 (h x)) xs) = Inr ys \<Longrightarrow> ys = map (\<lambda>x. fl (h x)) xs"
proof (induction xs arbitrary: ys)
  case Nil
  then show ?case by (simp add: f64_simps)
next
  case (Cons x xs)
  then show ?case
    by (auto simp: f64_simps bind_err_def split: sum.splits dest: f64_Inr)
qed

lemma fold_f64_Inl:
  "foldl (\<lambda>acc x. bind_err acc (\<lambda>s. f64 (s + x))) (Inl e) xs = Inl e"
  by (induction xs) (simp_all add: f64_simps)

lemma fold_f64_nonneg:
  assumes "0 \<le> a" and "\<forall>x \<in> set xs. 0 \<le> x"
    and "foldl (\<lambda>acc x. bind_err acc (\<lambda>s. f64 (s + x))) (Inr a) xs = Inr s"
  shows "0 \<le> s"
  using assms
proof (induction xs arbitrary: a)
  case Nil
  then show ?case by (simp add: f64_simps)
next
  case (Cons x xs)
  show ?case
  proof (cases "f64 (a + x)")
    case (Inl e)
    with Cons.prems(3) show ?thesis by (simp add: f64_simps fold_f64_Inl)
  next
    case (Inr v)
    then have "v = fl (a + x)" by (rule f64_Inr)
    then have "0 \<le> v" using Cons.prems(1,2) by (simp add: f64_simps fl_nonneg)
    moreover have "foldl (\<lambda>acc x. bind_err acc (\<lambda>s. f64 (s + x))) (Inr v) xs = Inr s"
      using Cons.prems(3) Inr by (simp add: f64_simps)
    ultimately show ?thesis using Cons.IH Cons.prems(2) by (simp add: f64_simps)
  qed
qed

lemma fold_f64_bounded:
  assumes "0 \<le> a" and "a \<le> real j" and "\<forall>x \<in> set xs. 0 \<le> x \<and> x \<le> 1"
    and "j + length xs < 2 ^ 53"
  shows "\<exists>s. foldl (\<lambda>acc x. bind_err acc (\<lambda>s. f64 (s + x))) (Inr a) xs = Inr s
           \<and> 0 \<le> s \<and> s \<le> real (j + length xs)"
  using assms
proof (induction xs arbitrary: a j)
  case Nil
  then show ?case by (simp add: f64_simps)
next
  case (Cons x xs)
  have x: "0 \<le> x" "x \<le> 1" using Cons.prems(3) by (auto simp: f64_simps)
  have j1: "Suc j < 2 ^ 53" using Cons.prems(4) by (simp add: f64_simps)
  have ab: "\<bar>a + x\<bar> \<le> real (Suc j)" using Cons.prems(1,2) x by (simp add: f64_simps)
  have big: "real (Suc j) < 2 ^ 1024"
  proof -
    have "real (Suc j) < 2 ^ 53" using j1 by (metis of_nat_less_iff of_nat_numeral of_nat_power)
    also have "\<dots> < (2::real) ^ 1024" by (simp add: f64_simps)
    finally show ?thesis .
  qed
  have run: "f64 (a + x) = Inr (fl (a + x))" and up: "\<bar>fl (a + x)\<bar> \<le> real (Suc j)"
    using f64_bounded [OF ab fl_of_nat [OF j1] big] by (simp_all add: f64_simps)
  have lo: "0 \<le> fl (a + x)" using Cons.prems(1) x by (simp add: f64_simps fl_nonneg)
  have up': "fl (a + x) \<le> real (Suc j)" using up by linarith
  have "\<exists>s. foldl (\<lambda>acc x. bind_err acc (\<lambda>s. f64 (s + x))) (Inr (fl (a + x))) xs = Inr s
           \<and> 0 \<le> s \<and> s \<le> real (Suc j + length xs)"
    using Cons.prems(3,4) by (intro Cons.IH [OF lo up']) (auto simp: f64_simps)
  then show ?case using run by (simp add: f64_simps)
qed

lemma fold_f64_zero:
  "\<forall>x \<in> set xs. x = 0 \<Longrightarrow> foldl (\<lambda>acc x. bind_err acc (\<lambda>s. f64 (s + x))) (Inr 0) xs = Inr 0"
  by (induction xs) (simp_all add: f64_simps f64_def)

lemma mean_square_nonneg:
  assumes "mean_square y = Inr m"
  shows "0 \<le> m" and "fl m = m"
proof -
  from assms obtain sq where sq: "collect (map (\<lambda>x. f64 (x * x)) y) = Inr sq"
    and mean: "f64_mean sq = Inr m"
    by (auto simp: f64_simps mean_square_def bind_err_def split: sum.splits)
  have sqv: "sq = map (\<lambda>x. fl (x * x)) y" using sq by (rule collect_map_f64)
  from mean obtain s where s: "f64_sum sq = Inr s" and m: "f64 (s / real (length sq)) = Inr m"
    by (auto simp: f64_simps f64_mean_def bind_err_def split: sum.splits if_splits)
  have "\<forall>x \<in> set sq. 0 \<le> x" unfolding sqv by (auto simp: f64_simps fl_nonneg)
  then have "0 \<le> s"
    using s fold_f64_nonneg [of 0 sq s] by (simp add: f64_simps f64_sum_def)
  then have "0 \<le> s / real (length sq)" by (simp add: f64_simps)
  moreover have mv: "m = fl (s / real (length sq))" using m by (rule f64_Inr)
  ultimately show "0 \<le> m" by (simp add: f64_simps fl_nonneg)
  show "fl m = m" unfolding mv by (rule fl_fl)
qed

lemma mean_square_zero:
  assumes "y \<noteq> []" and "\<forall>x \<in> set y. x = 0"
  shows "mean_square y = Inr 0"
proof -
  have "\<forall>x \<in> set y. f64 (x * x) = Inr ((\<lambda>x. 0) x)"
  proof
    fix x assume "x \<in> set y"
    then have "x = 0" using assms(2) by (simp add: f64_simps)
    then show "f64 (x * x) = Inr ((\<lambda>x. 0) x)" by (simp add: f64_simps f64_def)
  qed
  then have c: "collect (map (\<lambda>x. f64 (x * x)) y) = Inr (map (\<lambda>x. 0) y)"
    by (rule collect_map_Inr)
  have "f64_sum (map (\<lambda>x. 0) y) = Inr 0"
    unfolding f64_sum_def by (rule fold_f64_zero) (simp add: f64_simps)
  then have "f64_mean (map (\<lambda>x. 0) y) = Inr 0"
    using assms(1) by (simp add: f64_simps f64_mean_def f64_def)
  then show ?thesis by (simp add: f64_simps mean_square_def c)
qed

lemma mean_square_bounded:
  assumes "y \<noteq> []" and "\<forall>x \<in> set y. \<bar>x\<bar> \<le> 1" and "length y < 2 ^ 53"
  shows "\<exists>m. mean_square y = Inr m \<and> 0 \<le> m \<and> m \<le> 1"
proof -
  let ?sq = "map (\<lambda>x. fl (x * x)) y"
  have sq1: "\<bar>x * x\<bar> \<le> 1" if "x \<in> set y" for x
  proof -
    have "\<bar>x\<bar> \<le> 1" using that assms(2) by (simp add: f64_simps)
    then have "\<bar>x\<bar> * \<bar>x\<bar> \<le> 1 * 1" by (intro mult_mono) (auto simp: f64_simps)
    then show ?thesis by (simp add: f64_simps abs_mult)
  qed
  have each: "f64 (x * x) = Inr (fl (x * x)) \<and> 0 \<le> fl (x * x) \<and> fl (x * x) \<le> 1"
    if "x \<in> set y" for x
  proof -
    have "f64 (x * x) = Inr (fl (x * x))" and "\<bar>fl (x * x)\<bar> \<le> 1"
      using f64_bounded [OF sq1 [OF that], of ] by (simp_all add: f64_simps)
    moreover have "0 \<le> fl (x * x)" by (simp add: f64_simps fl_nonneg)
    ultimately show ?thesis by (auto simp: f64_simps)
  qed
  have c: "collect (map (\<lambda>x. f64 (x * x)) y) = Inr ?sq"
    by (rule collect_map_Inr) (simp add: f64_simps each)
  have "\<exists>s. foldl (\<lambda>acc x. bind_err acc (\<lambda>s. f64 (s + x))) (Inr 0) ?sq = Inr s
           \<and> 0 \<le> s \<and> s \<le> real (0 + length ?sq)"
    using assms(3) each by (intro fold_f64_bounded) (auto simp: f64_simps)
  then obtain s where s: "f64_sum ?sq = Inr s" and s0: "0 \<le> s" and sn: "s \<le> real (length y)"
    by (auto simp: f64_simps f64_sum_def)
  have n: "0 < real (length y)" using assms(1) by (simp add: f64_simps)
  have q: "\<bar>s / real (length y)\<bar> \<le> 1" using s0 sn n by (simp add: f64_simps pos_divide_le_eq)
  have m: "f64 (s / real (length y)) = Inr (fl (s / real (length y)))"
    and m1: "\<bar>fl (s / real (length y))\<bar> \<le> 1"
    using f64_bounded [OF q] by (simp_all add: f64_simps)
  have m0: "0 \<le> fl (s / real (length y))" using s0 by (simp add: f64_simps fl_nonneg)
  have "mean_square y = Inr (fl (s / real (length y)))"
    using assms(1) s m by (simp add: f64_simps mean_square_def c f64_mean_def)
  then show ?thesis using m0 m1 by (auto simp: f64_simps)
qed

subsection \<open>The crest factor\<close>

lemma f64_of_repr:
  assumes "fl x = x" and "\<bar>x\<bar> < 2 ^ 1024"
  shows "f64 x = Inr x"
  using assms by (simp add: f64_simps f64_def)




lemma guarded_peak_ge:
  assumes "guarded_peak y = Inr p"
  shows "eps_d \<le> p"
  using assms by (auto simp: f64_simps guarded_peak_def bind_err_def split: sum.splits)




text \<open>
  Three samples equal to the double 0.3, that is \<open>5404319552844595 / 2 ^ 54\<close>: the
  operations of lines 79-82 one by one. The sum of the three squares is a tie that goes to
  the even neighbour, the mean rounds upwards, and its square root is the next double
  after 0.3.
\<close>

lemma fl_at:
  assumes "2 powr of_int (e + 52) \<le> \<bar>x\<bar>" and "\<bar>x\<bar> < 2 powr of_int (e + 53)" and "- 1074 \<le> e"
    and "\<bar>x / 2 powr of_int e - of_int k\<bar> < 1 / 2"
    and "v = of_int k * 2 powr of_int e"
  shows "fl x = v"
  using fl_eval [OF assms(1-4)] assms(5) by (simp add: f64_simps)


















subsection \<open>The harmonic ratio\<close>

lemma ratio_range:
  assumes "mean_square yh = Inr eh" and "mean_square yp = Inr ep"
    and "f64 (eh + ep) = Inr d1" and "f64 (d1 + eps_d) = Inr d" and "f64 (eh / d) = Inr r"
  shows "0 \<le> r" and "r \<le> 1" and "r = fl (eh / fl (fl (eh + ep) + eps_d))"
proof -
  have eh0: "0 \<le> eh" and eh: "fl eh = eh" using mean_square_nonneg [OF assms(1)] by (simp_all add: f64_simps)
  have ep0: "0 \<le> ep" using mean_square_nonneg [OF assms(2)] by (simp add: f64_simps)
  have d1: "d1 = fl (eh + ep)" using assms(3) by (rule f64_Inr)
  have dv: "d = fl (d1 + eps_d)" using assms(4) by (rule f64_Inr)
  have rv: "r = fl (eh / d)" using assms(5) by (rule f64_Inr)
  have "fl eh \<le> fl (eh + ep)" using ep0 by (intro fl_mono) (simp add: f64_simps)
  then have a: "eh \<le> d1" using eh d1 by (simp add: f64_simps)
  have "fl d1 \<le> fl (d1 + eps_d)" using eps_d_pos by (intro fl_mono) (simp add: f64_simps)
  then have b: "d1 \<le> d" using d1 dv by (simp add: f64_simps fl_fl)
  have "fl eps_d \<le> fl (d1 + eps_d)" using a eh0 by (intro fl_mono) (simp add: f64_simps)
  then have dpos: "0 < d" using dv eps_d_pos by (simp add: f64_simps fl_eps_d)
  have q0: "0 \<le> eh / d" using eh0 dpos by (simp add: f64_simps)
  have q1: "eh / d \<le> 1" using a b dpos by (simp add: f64_simps pos_divide_le_eq)
  show "0 \<le> r" unfolding rv using q0 by (rule fl_nonneg)
  have "fl (eh / d) \<le> fl 1" using q1 by (rule fl_mono)
  then show "r \<le> 1" unfolding rv by (simp add: f64_simps)
  show "r = fl (eh / fl (fl (eh + ep) + eps_d))" unfolding rv dv d1 ..
qed

lemma ratio_steps:
  assumes "harmonic_percussive_ratio hpss y = Inr r"
  shows "\<exists>eh ep d1 d. mean_square (fst (hpss y)) = Inr eh \<and> mean_square (snd (hpss y)) = Inr ep
           \<and> f64 (eh + ep) = Inr d1 \<and> f64 (d1 + eps_d) = Inr d \<and> f64 (eh / d) = Inr r"
  using assms
  by (auto simp: f64_simps harmonic_percussive_ratio_def Let_def bind_err_def split: sum.splits)

lemma ratio_total:
  assumes "yh \<noteq> []" and "yp \<noteq> []" and "\<forall>x \<in> set yh. \<bar>x\<bar> \<le> 1" and "\<forall>x \<in> set yp. \<bar>x\<bar> \<le> 1"
    and "length yh < 2 ^ 53" and "length yp < 2 ^ 53" and "hpss y = (yh, yp)"
  shows "\<exists>r. harmonic_percussive_ratio hpss y = Inr r"
proof -
  from mean_square_bounded [OF assms(1,3,5)] obtain eh where
    eh: "mean_square yh = Inr eh" and eh0: "0 \<le> eh" and eh1: "eh \<le> 1" by blast
  from mean_square_bounded [OF assms(2,4,6)] obtain ep where
    ep: "mean_square yp = Inr ep" and ep0: "0 \<le> ep" and ep1: "ep \<le> 1" by blast
  have e1: "eps_d \<le> 1" by (simp add: f64_simps eps_d_eval)
  have f2: "fl 2 = 2" using fl_of_int [of 2] by (simp add: f64_simps)
  have f3: "fl 3 = 3" using fl_of_int [of 3] by (simp add: f64_simps)
  have "\<bar>eh + ep\<bar> \<le> 2" using eh0 eh1 ep0 ep1 by linarith
  then have d1: "f64 (eh + ep) = Inr (fl (eh + ep))" and d1b: "\<bar>fl (eh + ep)\<bar> \<le> 2"
    using f64_bounded [of "eh + ep" 2] f2 by (simp_all add: f64_simps)
  have d10: "0 \<le> fl (eh + ep)" using eh0 ep0 by (simp add: f64_simps fl_nonneg)
  have "\<bar>fl (eh + ep) + eps_d\<bar> \<le> 3" using d1b d10 e1 eps_d_pos by linarith
  then have d: "f64 (fl (eh + ep) + eps_d) = Inr (fl (fl (eh + ep) + eps_d))"
    using f64_bounded [of "fl (eh + ep) + eps_d" 3] f3 by (simp add: f64_simps)
  let ?d = "fl (fl (eh + ep) + eps_d)"
  have ehr: "fl eh = eh" using mean_square_nonneg(2) [OF eh] .
  have "fl eh \<le> fl (eh + ep)" using ep0 by (intro fl_mono) (simp add: f64_simps)
  moreover have "fl (fl (eh + ep)) \<le> ?d" using eps_d_pos by (intro fl_mono) (simp add: f64_simps)
  ultimately have a: "eh \<le> ?d" using ehr by (simp add: f64_simps fl_fl)
  have "fl eps_d \<le> ?d" using d10 by (intro fl_mono) (simp add: f64_simps)
  then have dpos: "0 < ?d" using eps_d_pos by (simp add: f64_simps fl_eps_d)
  have "\<bar>eh / ?d\<bar> \<le> 1" using eh0 a dpos by (simp add: f64_simps pos_divide_le_eq)
  then have r: "f64 (eh / ?d) = Inr (fl (eh / ?d))"
    using f64_bounded [of "eh / ?d" 1] by (simp add: f64_simps)
  show ?thesis
    by (simp add: f64_simps harmonic_percussive_ratio_def assms(7) eh ep d1 d r)
qed

lemma ratio_silence:
  "harmonic_percussive_ratio (\<lambda>y. (map (\<lambda>x. 0) y, map (\<lambda>x. 0) y)) [0, 0, 0, 0] = Inr 0"
proof -
  have ms: "mean_square [0, 0, 0, 0] = Inr 0" by (rule mean_square_zero) (simp_all add: f64_simps)
  have "\<bar>eps_d\<bar> < 2 ^ 1024" by (simp add: f64_simps eps_d_eval)
  then have e: "f64 eps_d = Inr eps_d"
    using f64_of_repr [OF fl_eps_d] by (simp add: f64_simps)
  have z: "f64 0 = Inr 0" by (simp add: f64_simps f64_def)
  show ?thesis
    by (simp add: f64_simps harmonic_percussive_ratio_def ms z e)
qed

text \<open>
  The value 1 is reached: at a harmonic energy of 1000000 the sum with \<^verbatim>\<open>1e-12\<close> rounds
  back to the energy.
\<close>

lemma ratio_one:
  "harmonic_percussive_ratio (\<lambda>y. (y, map (\<lambda>x. 0) y)) [1000, 1000] = Inr 1"
proof -
  have sq: "f64 (1000 * 1000) = Inr 1000000"
    using fl_of_int [of 1000000] by (simp add: f64_simps f64_def)
  have a1: "f64 (0 + 1000000) = Inr 1000000"
    using fl_of_int [of 1000000] by (simp add: f64_simps f64_def)
  have a2: "f64 (1000000 + 1000000) = Inr 2000000"
    using fl_of_int [of 2000000] by (simp add: f64_simps f64_def)
  have sum: "f64_sum [1000000, 1000000] = Inr 2000000"
    unfolding f64_sum_def foldl.simps bind_err_Inr a1 a2 ..
  have mean: "f64_mean [1000000, 1000000] = Inr 1000000"
    using fl_of_int [of 1000000] by (simp add: f64_simps f64_mean_def sum f64_def)
  have eh: "mean_square [1000, 1000] = Inr 1000000"
    unfolding mean_square_def list.map collect.simps sq bind_err_Inr mean ..
  have ep: "mean_square [0, 0] = Inr 0" by (rule mean_square_zero) (simp_all add: f64_simps)
  have "fl (1000000 + eps_d) = 1000000"
    unfolding eps_d_eval
    by (rule fl_at [where e = "- 33" and k = 8589934592000000])
       (simp_all add: f64_simps powr_minus_divide abs_less_iff)
  then have d: "f64 (1000000 + eps_d) = Inr 1000000" by (simp add: f64_simps f64_def)
  have d1: "f64 1000000 = Inr 1000000"
    using fl_of_int [of 1000000] by (simp add: f64_simps f64_def)
  have r: "f64 1 = Inr 1" by (simp add: f64_simps f64_def)
  show ?thesis
    by (simp add: f64_simps harmonic_percussive_ratio_def eh ep d1 d r)
qed




text \<open>
  C7, as the code has it. Every value \<^verbatim>\<open>harmonic_percussive_ratio\<close> returns is
  \<open>eh / (eh + ep + 1e-12)\<close> evaluated in binary64, with \<open>eh\<close> and \<open>ep\<close> the mean squares of
  the harmonic and the percussive component; it lies in the closed interval from 0 to 1 and
  is 0 when the harmonic component is all zero. The function returns for components with
  samples in [-1, 1].
\<close>

theorem harmonic_ratio_range:
  assumes "hpss y = (yh, yp)"
  shows "(\<forall>r. harmonic_percussive_ratio hpss y = Inr r \<longrightarrow>
            0 \<le> r \<and> r \<le> 1 \<and> ((\<forall>x \<in> set yh. x = 0) \<longrightarrow> r = 0)
            \<and> (\<exists>eh ep. mean_square yh = Inr eh \<and> mean_square yp = Inr ep
                  \<and> r = fl (eh / fl (fl (eh + ep) + eps_d))))
       \<and> (yh \<noteq> [] \<and> yp \<noteq> [] \<and> (\<forall>x \<in> set yh. \<bar>x\<bar> \<le> 1) \<and> (\<forall>x \<in> set yp. \<bar>x\<bar> \<le> 1)
             \<and> length yh < 2 ^ 53 \<and> length yp < 2 ^ 53
           \<longrightarrow> (\<exists>r. harmonic_percussive_ratio hpss y = Inr r))"
proof (intro conjI allI impI)
  fix r
  assume run: "harmonic_percussive_ratio hpss y = Inr r"
  from ratio_steps [OF run] assms obtain eh ep d1 d where
    eh: "mean_square yh = Inr eh" and ep: "mean_square yp = Inr ep"
    and d1: "f64 (eh + ep) = Inr d1" and d: "f64 (d1 + eps_d) = Inr d" and r: "f64 (eh / d) = Inr r"
    by auto
  show "0 \<le> r" and "r \<le> 1" using ratio_range(1,2) [OF eh ep d1 d r] by simp_all
  have "r = fl (eh / fl (fl (eh + ep) + eps_d))" using ratio_range(3) [OF eh ep d1 d r] .
  with eh ep show "\<exists>eh ep. mean_square yh = Inr eh \<and> mean_square yp = Inr ep
                  \<and> r = fl (eh / fl (fl (eh + ep) + eps_d))" by blast
  assume z: "\<forall>x \<in> set yh. x = 0"
  have "yh \<noteq> []" using eh by (auto simp: mean_square_def f64_mean_def bind_err_Inr)
  then have "mean_square yh = Inr 0" using z by (rule mean_square_zero)
  then have "eh = 0" using eh by simp
  then show "r = 0" using f64_Inr [OF r] by (simp add: fl_zero)
next
  assume "yh \<noteq> [] \<and> yp \<noteq> [] \<and> (\<forall>x \<in> set yh. \<bar>x\<bar> \<le> 1) \<and> (\<forall>x \<in> set yp. \<bar>x\<bar> \<le> 1)
             \<and> length yh < 2 ^ 53 \<and> length yp < 2 ^ 53"
  then show "\<exists>r. harmonic_percussive_ratio hpss y = Inr r"
    using assms by (intro ratio_total [of yh yp]) blast+
qed

theorem harmonic_ratio_range_witness:
  "(\<lambda>y. (y, map (\<lambda>x. 0) y)) [1, 1 :: real] = ([1, 1], [0, 0])
   \<and> list_all (\<lambda>x. \<bar>x\<bar> \<le> 1) [1, 1 :: real] \<and> list_all (\<lambda>x. \<bar>x\<bar> \<le> 1) [0, 0 :: real]
   \<and> (\<exists>r. harmonic_percussive_ratio (\<lambda>y. (y, map (\<lambda>x. 0) y)) [1, 1] = Inr r \<and> 0 \<le> r \<and> r \<le> 1)"
proof -
  have h: "(\<lambda>y. (y, map (\<lambda>x. 0) y)) [1, 1 :: real] = ([1, 1], [0, 0])" by simp
  have b: "[1, 1 :: real] \<noteq> [] \<and> [0, 0 :: real] \<noteq> [] \<and> (\<forall>x \<in> set [1, 1 :: real]. \<bar>x\<bar> \<le> 1)
        \<and> (\<forall>x \<in> set [0, 0 :: real]. \<bar>x\<bar> \<le> 1)
        \<and> length [1, 1 :: real] < 2 ^ 53 \<and> length [0, 0 :: real] < 2 ^ 53" by simp
  note inst = harmonic_ratio_range [of "\<lambda>y. (y, map (\<lambda>x. 0) y)" "[1, 1]" "[1, 1]" "[0, 0]", OF h]
  from inst b obtain r where
    r: "harmonic_percussive_ratio (\<lambda>y. (y, map (\<lambda>x. 0) y)) [1, 1] = Inr r" by blast
  from inst r have "0 \<le> r \<and> r \<le> 1" by blast
  with r h show ?thesis by auto
qed

text \<open>
  C7 as stated fails: a silent signal, whose two components are silent, has ratio 0, which
  is outside the open interval from 0 to 1.
\<close>

theorem harmonic_ratio_zero_on_silence:
  "harmonic_percussive_ratio (\<lambda>y. (map (\<lambda>x. 0) y, map (\<lambda>x. 0) y)) [0, 0, 0, 0] = Inr 0"
  by (rule ratio_silence)

end
